theory Spec2Isabelle
  imports Complex_Main "HOL-Library.Product_Lexorder" "HOL-Library.List_Lexorder"
    "HOL-Library.Char_ord"
begin

section \<open>Colour mapping and dithering for the e-ink panel\<close>

text \<open>
  The embedding follows \<^verbatim>\<open>src/color_mapping.py\<close>, class \<^verbatim>\<open>SevenColorMapper\<close>, and
  the two-colour ditherer of \<^verbatim>\<open>src/pokemon_eink_calendar.py\<close>.

  \<^item> Python integers are \<open>int\<close>; an RGB tuple is a triple of them. Where the source
    computes on numpy \<^verbatim>\<open>uint8\<close> scalars, the wrap-around modulo 256 is written out.
  \<^item> Python and numpy floating-point numbers are idealised as \<open>real\<close>: every operator
    of the source is kept, in the source's order, but rounding is not modelled.
    \<^verbatim>\<open>float('inf')\<close>, used only as the initial minimum of a scan, is \<open>None\<close> in a
    \<open>real option\<close>.
  \<^item> A raster (a numpy array of shape height x width x 3) is a list of rows. The
    source indexes an array only at \<open>y < height\<close> and \<open>x < width\<close>, after its bounds
    test where there is one, so on a rectangular raster every \<open>!\<close> below is in range.
  \<^item> A Python exception is a value \<open>Inl e\<close> of \<open>py_error + 'a\<close>.
  \<^item> A Python value that may be \<^verbatim>\<open>None\<close> is an \<open>option\<close>.
\<close>

subsection \<open>Data\<close>

type_synonym rgb = "int \<times> int \<times> int"
type_synonym lab = "real \<times> real \<times> real"
type_synonym entry = "string \<times> rgb \<times> int"
type_synonym image = "rgb list list"
type_synonym buffer = "(real \<times> real \<times> real) list list"

datatype py_error =
    NameError            \<comment> \<open>a global name that the module never bound\<close>
  | ZeroDivisionError
  | TypeError            \<comment> \<open>unpacking \<^verbatim>\<open>None\<close> into three names\<close>
  | KeyError
  | BackendError string  \<comment> \<open>any exception raised inside the optional Cython module\<close>

definition EINK_COLORS :: "(string \<times> rgb) list" where
  "EINK_COLORS =
    [(''BLACK'', (0, 0, 0)),
     (''WHITE'', (255, 255, 255)),
     (''GREEN'', (0, 255, 0)),
     (''BLUE'', (0, 0, 255)),
     (''RED'', (255, 0, 0)),
     (''YELLOW'', (255, 255, 0)),
     (''ORANGE'', (255, 165, 0))]"

definition COLOR_INDICES :: "(string \<times> int) list" where
  "COLOR_INDICES =
    [(''BLACK'', 0), (''WHITE'', 1), (''GREEN'', 2), (''BLUE'', 3),
     (''RED'', 4), (''YELLOW'', 5), (''ORANGE'', 6)]"

subsection \<open>sRGB to CIE LAB\<close>

text \<open>The two nested helpers of \<^verbatim>\<open>_rgb_to_lab\<close>. In both, the power is taken of a
  positive base only (the guard of the branch), where Python's \<^verbatim>\<open>**\<close> is \<open>powr\<close>.\<close>

definition gamma_correct :: "real \<Rightarrow> real" where
  "gamma_correct c =
     (if c > 0.04045 then ((c + 0.055) / 1.055) powr 2.4 else c / 12.92)"

definition f :: "real \<Rightarrow> real" where
  "f t = (if t > 0.008856 then t powr (1 / 3) else (7.787 * t) + (16 / 116))"

definition rgb_to_lab :: "rgb \<Rightarrow> lab" where
  "rgb_to_lab rgb =
     (case rgb of (r0, g0, b0) \<Rightarrow>
        let r = real_of_int r0 / 255.0;
            g = real_of_int g0 / 255.0;
            b = real_of_int b0 / 255.0;
            r = gamma_correct r;
            g = gamma_correct g;
            b = gamma_correct b;
            x = r * 0.4124564 + g * 0.3575761 + b * 0.1804375;
            y = r * 0.2126729 + g * 0.7151522 + b * 0.0721750;
            z = r * 0.0193339 + g * 0.1191920 + b * 0.9503041;
            x = x / 0.95047;
            y = y / 1.00000;
            z = z / 1.08883;
            fx = f x;
            fy = f y;
            fz = f z;
            L = 116 * fy - 16;
            a = 500 * (fx - fy);
            b = 200 * (fy - fz)
        in (L, a, b))"

subsection \<open>Colour differences\<close>

definition delta_e_cie76 :: "lab \<Rightarrow> lab \<Rightarrow> real" where
  "delta_e_cie76 lab1 lab2 =
     (case lab1 of (L1, a1, b1) \<Rightarrow> case lab2 of (L2, a2, b2) \<Rightarrow>
        sqrt ((L2 - L1)\<^sup>2 + (a2 - a1)\<^sup>2 + (b2 - b1)\<^sup>2))"

definition delta_e_ciede2000 :: "lab \<Rightarrow> lab \<Rightarrow> real" where
  "delta_e_ciede2000 lab1 lab2 =
     (case lab1 of (L1, a1, b1) \<Rightarrow> case lab2 of (L2, a2, b2) \<Rightarrow>
        let C1 = sqrt (a1\<^sup>2 + b1\<^sup>2);
            C2 = sqrt (a2\<^sup>2 + b2\<^sup>2);
            dL = L2 - L1;
            dC = C2 - C1;
            da = a2 - a1;
            db = b2 - b1;
            dH2 = da\<^sup>2 + db\<^sup>2 - dC\<^sup>2;
            dH = sqrt (max 0 dH2);
            kL = 1.0; kC = 1.0; kH = 1.0
        in sqrt ((dL / kL)\<^sup>2 + (dC / kC)\<^sup>2 + (dH / kH)\<^sup>2))"

subsection \<open>The palette in LAB space and the direct matcher\<close>

text \<open>\<^verbatim>\<open>__init__\<close> fills \<^verbatim>\<open>self.eink_color_list\<close> from the class constant, in
  declaration order.\<close>

definition eink_color_list :: "(string \<times> rgb \<times> lab) list" where
  "eink_color_list = map (\<lambda>(name, rgb). (name, rgb, rgb_to_lab rgb)) EINK_COLORS"

text \<open>\<^verbatim>\<open>distance < min_distance\<close>, with \<open>None\<close> for the initial infinity.\<close>

definition below_min :: "real \<Rightarrow> real option \<Rightarrow> bool" where
  "below_min distance min_distance =
     (case min_distance of None \<Rightarrow> True | Some m \<Rightarrow> distance < m)"

text \<open>The loop of \<^verbatim>\<open>_find_closest_eink_color_direct\<close> over the palette, carrying
  \<^verbatim>\<open>(min_distance, closest_color)\<close>. \<^verbatim>\<open>self.COLOR_INDICES[name]\<close> raises KeyError
  for a name that is not a key.\<close>

fun closest_scan ::
  "(lab \<Rightarrow> lab \<Rightarrow> real) \<Rightarrow> lab \<Rightarrow> (string \<times> rgb \<times> lab) list \<Rightarrow>
   real option \<times> entry option \<Rightarrow> py_error + (real option \<times> entry option)" where
  "closest_scan delta_e_func target_lab [] acc = Inr acc"
| "closest_scan delta_e_func target_lab ((name, rgb_val, lab_val) # rest) (min_distance, closest_color) =
     (let distance = delta_e_func target_lab lab_val in
      if below_min distance min_distance then
        (case map_of COLOR_INDICES name of
           None \<Rightarrow> Inl KeyError
         | Some index \<Rightarrow>
             closest_scan delta_e_func target_lab rest
               (Some distance, Some (name, rgb_val, index)))
      else closest_scan delta_e_func target_lab rest (min_distance, closest_color))"

definition find_closest_eink_color_direct :: "rgb \<Rightarrow> bool \<Rightarrow> py_error + entry option" where
  "find_closest_eink_color_direct rgb use_ciede2000 =
     (let target_lab = rgb_to_lab rgb;
          delta_e_func = (if use_ciede2000 then delta_e_ciede2000 else delta_e_cie76)
      in case closest_scan delta_e_func target_lab eink_color_list (None, None) of
           Inl e \<Rightarrow> Inl e
         | Inr (min_distance, closest_color) \<Rightarrow> Inr closest_color)"

subsection \<open>The lookup table\<close>

text \<open>\<^verbatim>\<open>range(0, 256, step)\<close> with \<^verbatim>\<open>step = 4\<close>, and the three nested loops of
  \<^verbatim>\<open>_build_color_lookup_table\<close> as the list of keys in visiting order.\<close>

definition range_step :: "int list" where
  "range_step = map (\<lambda>i. 4 * int i) [0..<64]"

definition cache_keys :: "rgb list" where
  "cache_keys = concat (map (\<lambda>r. concat (map (\<lambda>g. map (\<lambda>b. (r, g, b)) range_step) range_step)) range_step)"

text \<open>A \<^verbatim>\<open>for\<close> loop whose body updates a state and may raise: the first exception
  ends the loop.\<close>

fun for_loop :: "('s \<Rightarrow> 'a \<Rightarrow> py_error + 's) \<Rightarrow> 'a list \<Rightarrow> 's \<Rightarrow> py_error + 's" where
  "for_loop body [] s = Inr s"
| "for_loop body (x # xs) s =
     (case body s x of Inl e \<Rightarrow> Inl e | Inr s' \<Rightarrow> for_loop body xs s')"

text \<open>One iteration of the innermost loop: the direct match with the default metric is
  unpacked into three names (TypeError on \<^verbatim>\<open>None\<close>) and stored under the key.\<close>

definition cache_store :: "(rgb \<rightharpoonup> entry) \<Rightarrow> rgb \<Rightarrow> py_error + (rgb \<rightharpoonup> entry)" where
  "cache_store cache rgb =
     (case find_closest_eink_color_direct rgb True of
        Inl e \<Rightarrow> Inl e
      | Inr None \<Rightarrow> Inl TypeError
      | Inr (Some (closest_name, closest_rgb, closest_index)) \<Rightarrow>
          Inr (cache(rgb \<mapsto> (closest_name, closest_rgb, closest_index))))"

definition build_color_lookup_table :: "(rgb \<rightharpoonup> entry) \<Rightarrow> py_error + (rgb \<rightharpoonup> entry)" where
  "build_color_lookup_table color_cache = for_loop cache_store cache_keys color_cache"

subsection \<open>The mapper object\<close>

text \<open>The optional Cython module \<^verbatim>\<open>fast_dither\<close> is not part of the sources; its two
  entry points are parameters, each returning a raster or raising.\<close>

record backend =
  jarvis_judice_ninke_dither :: "buffer \<Rightarrow> py_error + image"
  floyd_steinberg_dither :: "buffer \<Rightarrow> py_error + image"

record mapper =
  color_cache :: "rgb \<rightharpoonup> entry"
  fast_ditherer :: "backend option"

text \<open>\<^verbatim>\<open>logging.warning(...)\<close> and \<^verbatim>\<open>logging.error(...)\<close>: the module's
  \<^verbatim>\<open>import logging\<close> is commented out (line 9) and nothing else binds the name, so
  evaluating either call raises NameError before anything is logged.\<close>

definition logging_warning :: "py_error + unit" where
  "logging_warning = Inl NameError"

definition logging_error :: "py_error + unit" where
  "logging_error = Inl NameError"

text \<open>\<^verbatim>\<open>__init__\<close>. The argument is the environment: \<open>None\<close> when importing
  \<^verbatim>\<open>fast_dither\<close> failed (\<^verbatim>\<open>FAST_DITHER_AVAILABLE = False\<close>), otherwise the outcome of
  \<^verbatim>\<open>fast_dither.FastSevenColorDitherer()\<close>.\<close>

definition init :: "(py_error + backend) option \<Rightarrow> py_error + mapper" where
  "init fast_dither =
     (case build_color_lookup_table Map.empty of
        Inl e \<Rightarrow> Inl e
      | Inr cache \<Rightarrow>
         (case fast_dither of
            None \<Rightarrow> Inr \<lparr>color_cache = cache, fast_ditherer = None\<rparr>
          | Some (Inr fd) \<Rightarrow> Inr \<lparr>color_cache = cache, fast_ditherer = Some fd\<rparr>
          | Some (Inl e) \<Rightarrow>
             (case logging_warning of
                Inl e' \<Rightarrow> Inl e'
              | Inr u \<Rightarrow> Inr \<lparr>color_cache = cache, fast_ditherer = None\<rparr>)))"

text \<open>The second definition of \<^verbatim>\<open>find_closest_eink_color\<close> in the class body (the one
  in force: it rebinds the name of the first, at line 163).\<close>

definition find_closest_eink_color :: "mapper \<Rightarrow> rgb \<Rightarrow> bool \<Rightarrow> py_error + entry option" where
  "find_closest_eink_color self rgb use_ciede2000 =
     (case rgb of (r, g, b) \<Rightarrow>
        let cache_r = (r div 4) * 4;
            cache_g = (g div 4) * 4;
            cache_b = (b div 4) * 4;
            cache_key = (cache_r, cache_g, cache_b)
        in case color_cache self cache_key of
             Some hit \<Rightarrow> Inr (Some hit)
           | None \<Rightarrow> find_closest_eink_color_direct rgb use_ciede2000)"

text \<open>\<^verbatim>\<open>_, closest_rgb, _ = self.find_closest_eink_color(rgb)\<close>.\<close>

definition closest_rgb_of :: "mapper \<Rightarrow> rgb \<Rightarrow> py_error + rgb" where
  "closest_rgb_of self rgb =
     (case find_closest_eink_color self rgb True of
        Inl e \<Rightarrow> Inl e
      | Inr None \<Rightarrow> Inl TypeError
      | Inr (Some (name, closest_rgb, index)) \<Rightarrow> Inr closest_rgb)"

subsection \<open>Nearest-colour quantization\<close>

text \<open>The \<^verbatim>\<open>'simple'\<close> branch of \<^verbatim>\<open>quantize_image\<close>. The pixel is a tuple of numpy
  \<^verbatim>\<open>uint8\<close> scalars read from the array, so in
  \<^verbatim>\<open>np.sqrt(sum((a - b)**2 for a, b in zip(rgb, eink_rgb)))\<close> the difference, the
  square and each addition of \<^verbatim>\<open>sum\<close> are \<^verbatim>\<open>uint8\<close> operations: numpy converts the
  Python integer operand to the scalar's type, and the result wraps modulo 256.
  \<open>uint8\<close> is that wrap-around. The root of a \<^verbatim>\<open>uint8\<close> is taken in half precision,
  which is strictly increasing on the 256 possible sums, so the comparisons of the scan
  are those of the exact roots.\<close>

definition uint8 :: "int \<Rightarrow> int" where
  "uint8 n = n mod 256"

definition squared_sum :: "rgb \<Rightarrow> rgb \<Rightarrow> int" where
  "squared_sum rgb eink_rgb =
     (case rgb of (a1, a2, a3) \<Rightarrow> case eink_rgb of (b1, b2, b3) \<Rightarrow>
        let d1 = uint8 ((uint8 (a1 - b1))\<^sup>2);
            d2 = uint8 ((uint8 (a2 - b2))\<^sup>2);
            d3 = uint8 ((uint8 (a3 - b3))\<^sup>2)
        in uint8 (uint8 (uint8 (0 + d1) + d2) + d3))"

definition rgb_distance :: "rgb \<Rightarrow> rgb \<Rightarrow> real" where
  "rgb_distance rgb eink_rgb = sqrt (real_of_int (squared_sum rgb eink_rgb))"

text \<open>The scan over \<^verbatim>\<open>EINK_COLORS.items()\<close>, carrying
  \<^verbatim>\<open>(min_distance, closest_rgb)\<close> from \<^verbatim>\<open>(inf, (0, 0, 0))\<close>.\<close>

fun simple_scan :: "rgb \<Rightarrow> (string \<times> rgb) list \<Rightarrow> real option \<times> rgb \<Rightarrow> real option \<times> rgb" where
  "simple_scan rgb [] acc = acc"
| "simple_scan rgb ((name, eink_rgb) # rest) (min_distance, closest_rgb) =
     (let distance = rgb_distance rgb eink_rgb in
      if below_min distance min_distance then simple_scan rgb rest (Some distance, eink_rgb)
      else simple_scan rgb rest (min_distance, closest_rgb))"

definition simple_pixel :: "rgb \<Rightarrow> rgb" where
  "simple_pixel rgb = snd (simple_scan rgb EINK_COLORS (None, (0, 0, 0)))"

text \<open>Filling a fresh array pixel by pixel, row by row; the first exception ends it.\<close>

fun for_each :: "('a \<Rightarrow> py_error + 'b) \<Rightarrow> 'a list \<Rightarrow> py_error + 'b list" where
  "for_each g [] = Inr []"
| "for_each g (x # xs) =
     (case g x of
        Inl e \<Rightarrow> Inl e
      | Inr v \<Rightarrow> (case for_each g xs of Inl e \<Rightarrow> Inl e | Inr vs \<Rightarrow> Inr (v # vs)))"

definition quantize_image :: "mapper \<Rightarrow> image \<Rightarrow> string \<Rightarrow> py_error + image" where
  "quantize_image self img method =
     (if method = ''perceptual'' then for_each (for_each (closest_rgb_of self)) img
      else Inr (map (map simple_pixel) img))"

subsection \<open>Error-diffusion dithering\<close>

text \<open>\<^verbatim>\<open>np.array(image, dtype=np.float32)\<close> and the shape of an array.\<close>

definition to_float32 :: "image \<Rightarrow> buffer" where
  "to_float32 img = map (map (\<lambda>(r, g, b). (real_of_int r, real_of_int g, real_of_int b))) img"

definition height_of :: "'a list list \<Rightarrow> nat" where
  "height_of arr = length arr"

definition width_of :: "'a list list \<Rightarrow> nat" where
  "width_of arr = (case arr of [] \<Rightarrow> 0 | row # rows \<Rightarrow> length row)"

text \<open>The kernels, as \<^verbatim>\<open>(dx, dy, weight)\<close>, and their selection by method name.\<close>

definition floyd_steinberg_kernel :: "(int \<times> int \<times> real) list" where
  "floyd_steinberg_kernel = [(1, 0, 7/16), (-1, 1, 3/16), (0, 1, 5/16), (1, 1, 1/16)]"

definition jarvis_judice_ninke_kernel :: "(int \<times> int \<times> real) list" where
  "jarvis_judice_ninke_kernel =
     [(1, 0, 7/48), (2, 0, 5/48),
      (-2, 1, 3/48), (-1, 1, 5/48), (0, 1, 7/48), (1, 1, 5/48), (2, 1, 3/48),
      (-2, 2, 1/48), (-1, 2, 3/48), (0, 2, 5/48), (1, 2, 3/48), (2, 2, 1/48)]"

definition error_kernel :: "string \<Rightarrow> (int \<times> int \<times> real) list" where
  "error_kernel method =
     (if method = ''floyd_steinberg_7color'' then floyd_steinberg_kernel
      else if method = ''jarvis_judice_ninke_7color'' then jarvis_judice_ninke_kernel
      else floyd_steinberg_kernel)"

text \<open>\<^verbatim>\<open>np.clip\<close> on one channel and on a pixel, and \<^verbatim>\<open>.astype(int)\<close>, which
  truncates toward zero.\<close>

definition clip :: "real \<Rightarrow> real \<Rightarrow> real \<Rightarrow> real" where
  "clip v lo hi = min (max v lo) hi"

definition clip_pixel :: "real \<times> real \<times> real \<Rightarrow> real \<times> real \<times> real" where
  "clip_pixel p = (case p of (r, g, b) \<Rightarrow> (clip r 0 255, clip g 0 255, clip b 0 255))"

definition astype_int :: "real \<Rightarrow> int" where
  "astype_int v = (if v < 0 then \<lceil>v\<rceil> else \<lfloor>v\<rfloor>)"

text \<open>The state of the pixel loop: the float working buffer, the output raster and the
  per-call memo. The hit, miss and pixel counters only feed the progress lines (each
  division there is guarded) and are left out.\<close>

record dither_state =
  img_array :: buffer
  output_array :: image
  local_cache :: "rgb \<rightharpoonup> rgb"

text \<open>The scan direction of row \<open>y\<close>, and the neighbour a kernel offset points to.\<close>

definition x_range :: "nat \<Rightarrow> nat \<Rightarrow> nat list" where
  "x_range width y = (if y mod 2 = 0 then [0..<width] else rev [0..<width])"

definition neighbor :: "nat \<Rightarrow> nat \<Rightarrow> int \<Rightarrow> int \<Rightarrow> int \<times> int" where
  "neighbor x y dx dy =
     (let nx = int x + dx;
          ny = int y + dy;
          nx = (if y mod 2 = 1 then int x - dx else nx)
      in (nx, ny))"

text \<open>One kernel entry: inside the bounds, the weighted error is added to the neighbour
  and the neighbour is clipped in place.\<close>

definition distribute ::
  "nat \<Rightarrow> nat \<Rightarrow> nat \<Rightarrow> nat \<Rightarrow> real \<times> real \<times> real \<Rightarrow> buffer \<Rightarrow> int \<times> int \<times> real \<Rightarrow> buffer" where
  "distribute height width x y error_rgb arr k =
     (case k of (dx, dy, weight) \<Rightarrow>
      case neighbor x y dx dy of (nx, ny) \<Rightarrow>
        if 0 \<le> nx \<and> nx < int width \<and> 0 \<le> ny \<and> ny < int height then
          (case arr ! nat ny ! nat nx of (tr, tg, tb) \<Rightarrow>
           case error_rgb of (er, eg, eb) \<Rightarrow>
             let added = (tr + er * weight, tg + eg * weight, tb + eb * weight)
             in arr[nat ny := (arr ! nat ny)[nat nx := clip_pixel added]])
        else arr)"

text \<open>The memoised lookup of the nearest palette colour.\<close>

definition lookup_local ::
  "mapper \<Rightarrow> (rgb \<rightharpoonup> rgb) \<Rightarrow> rgb \<Rightarrow> py_error + (rgb \<times> (rgb \<rightharpoonup> rgb))" where
  "lookup_local self cache current_rgb =
     (case cache current_rgb of
        Some closest_rgb \<Rightarrow> Inr (closest_rgb, cache)
      | None \<Rightarrow>
         (case closest_rgb_of self current_rgb of
            Inl e \<Rightarrow> Inl e
          | Inr closest_rgb \<Rightarrow> Inr (closest_rgb, cache(current_rgb \<mapsto> closest_rgb))))"

text \<open>The body of the loop over \<open>x\<close>.\<close>

definition dither_pixel ::
  "mapper \<Rightarrow> (int \<times> int \<times> real) list \<Rightarrow> nat \<Rightarrow> nat \<Rightarrow> nat \<Rightarrow>
   dither_state \<Rightarrow> nat \<Rightarrow> py_error + dither_state" where
  "dither_pixel self ker height width y st x =
     (case img_array st ! y ! x of (pr, pg, pb) \<Rightarrow>
      case clip_pixel (pr, pg, pb) of (cr, cg, cb) \<Rightarrow>
        let current_rgb = (astype_int cr, astype_int cg, astype_int cb) in
        case lookup_local self (local_cache st) current_rgb of
          Inl e \<Rightarrow> Inl e
        | Inr ((qr, qg, qb), cache') \<Rightarrow>
            let out = (output_array st)[y := (output_array st ! y)[x := (qr, qg, qb)]];
                error_rgb = (pr - real_of_int qr, pg - real_of_int qg, pb - real_of_int qb);
                arr = foldl (distribute height width x y error_rgb) (img_array st) ker
            in Inr \<lparr>img_array = arr, output_array = out, local_cache = cache'\<rparr>)"

text \<open>The progress test at the top of each row,
  \<^verbatim>\<open>current_time - last_progress_time >= 3.0 or y % (height // 4) == 0\<close>.
  The clock is outside the program: \<open>slow y\<close> says whether three seconds have passed
  when row \<open>y\<close> starts. When they have not, the right operand is evaluated, and the
  modulus raises for a divisor of zero. What the branch prints has no effect.\<close>

definition progress_check :: "(nat \<Rightarrow> bool) \<Rightarrow> nat \<Rightarrow> nat \<Rightarrow> py_error + unit" where
  "progress_check slow height y =
     (if slow y then Inr ()
      else if height div 4 = 0 then Inl ZeroDivisionError
      else Inr ())"

definition dither_row ::
  "mapper \<Rightarrow> (nat \<Rightarrow> bool) \<Rightarrow> (int \<times> int \<times> real) list \<Rightarrow> nat \<Rightarrow> nat \<Rightarrow>
   dither_state \<Rightarrow> nat \<Rightarrow> py_error + dither_state" where
  "dither_row self slow ker height width st y =
     (case progress_check slow height y of
        Inl e \<Rightarrow> Inl e
      | Inr u \<Rightarrow> for_loop (dither_pixel self ker height width y) (x_range width y) st)"

text \<open>The Cython branch of \<^verbatim>\<open>quantize_image_advanced_dithering\<close>: \<open>None\<close> when control
  reaches the Python version below it, otherwise what the branch returns or raises. The
  handler of \<^verbatim>\<open>except Exception\<close> calls \<^verbatim>\<open>logging.error\<close> first and would then fall
  through.\<close>

definition fast_path :: "mapper \<Rightarrow> string \<Rightarrow> buffer \<Rightarrow> (py_error + image) option" where
  "fast_path self method arr =
     (case fast_ditherer self of
        None \<Rightarrow> None
      | Some fd \<Rightarrow>
         (case (if method = ''jarvis_judice_ninke_7color'' then jarvis_judice_ninke_dither fd arr
                else if method = ''floyd_steinberg_7color'' then floyd_steinberg_dither fd arr
                else jarvis_judice_ninke_dither fd arr) of
            Inr out \<Rightarrow> Some (Inr out)
          | Inl e \<Rightarrow>
             (case logging_error of
                Inl e' \<Rightarrow> Some (Inl e')
              | Inr u \<Rightarrow> None)))"

text \<open>The Python version: the error-diffusion loops that follow the Cython branch and
  the \<^verbatim>\<open>'simple'\<close> shortcut.\<close>

definition python_dithering ::
  "mapper \<Rightarrow> (nat \<Rightarrow> bool) \<Rightarrow> string \<Rightarrow> buffer \<Rightarrow> py_error + dither_state" where
  "python_dithering self slow method arr =
     (let height = height_of arr;
          width = width_of arr;
          out = replicate height (replicate width (0, 0, 0))
      in for_loop (dither_row self slow (error_kernel method) height width) [0..<height]
           \<lparr>img_array = arr, output_array = out, local_cache = Map.empty\<rparr>)"

definition quantize_image_advanced_dithering ::
  "mapper \<Rightarrow> (nat \<Rightarrow> bool) \<Rightarrow> image \<Rightarrow> string \<Rightarrow> py_error + image" where
  "quantize_image_advanced_dithering self slow img method =
     (let arr = to_float32 img in
      case fast_path self method arr of
        Some result \<Rightarrow> result
      | None \<Rightarrow>
          if method = ''simple'' then quantize_image self img ''simple''
          else (case python_dithering self slow method arr of
                  Inl e \<Rightarrow> Inl e
                | Inr st \<Rightarrow> Inr (output_array st)))"


subsection \<open>Blue-noise mode\<close>

text \<open>numpy's global generator is outside the sources: \<open>np_seed\<close> is
  \<^verbatim>\<open>np.random.seed\<close> (the state it installs) and \<open>np_random\<close> is
  \<^verbatim>\<open>np.random.random\<close> (a draw and the next state). Python sorts the tuples
  \<^verbatim>\<open>(distance, name, eink_rgb)\<close> lexicographically.\<close>

definition two_closest :: "rgb \<Rightarrow> rgb \<times> rgb" where
  "two_closest rgb =
     (let distances = map (\<lambda>(name, eink_rgb).
             (delta_e_ciede2000 (rgb_to_lab rgb) (rgb_to_lab eink_rgb), name, eink_rgb)) EINK_COLORS;
          distances = sort distances;
          closest = distances ! 0;
          second_closest = (if length distances > 1 then distances ! 1 else distances ! 0)
      in (snd (snd closest), snd (snd second_closest)))"

definition blue_noise_pixel :: "('g \<Rightarrow> real \<times> 'g) \<Rightarrow> rgb \<Rightarrow> 'g \<Rightarrow> rgb \<times> 'g" where
  "blue_noise_pixel np_random rgb gen =
     (case two_closest rgb of (closest, second_closest) \<Rightarrow>
      case np_random gen of (threshold, gen') \<Rightarrow>
        (if threshold < 0.7 then closest else second_closest, gen'))"

fun for_pixels :: "('a \<Rightarrow> 'g \<Rightarrow> 'b \<times> 'g) \<Rightarrow> 'a list \<Rightarrow> 'g \<Rightarrow> 'b list \<times> 'g" where
  "for_pixels body [] gen = ([], gen)"
| "for_pixels body (p # ps) gen =
     (case body p gen of (v, gen') \<Rightarrow>
      case for_pixels body ps gen' of (vs, gen'') \<Rightarrow> (v # vs, gen''))"

definition quantize_image_blue_noise ::
  "(int \<Rightarrow> 'g) \<Rightarrow> ('g \<Rightarrow> real \<times> 'g) \<Rightarrow> 'g \<Rightarrow> image \<Rightarrow> image \<times> 'g" where
  "quantize_image_blue_noise np_seed np_random gen img =
     (let gen = np_seed 42
      in for_pixels (for_pixels (blue_noise_pixel np_random)) img gen)"

subsection \<open>The two-colour Floyd-Steinberg ditherer (pokemon_eink_calendar.py)\<close>




subsection \<open>Predicates used in the statements\<close>

definition is_palette_entry :: "entry \<Rightarrow> bool" where
  "is_palette_entry e =
     (case e of (name, rgb_val, index) \<Rightarrow>
        map_of EINK_COLORS name = Some rgb_val \<and> map_of COLOR_INDICES name = Some index)"

definition palette_rgb :: "rgb \<Rightarrow> bool" where
  "palette_rgb p = (p \<in> set (map snd EINK_COLORS))"

definition valid_channel :: "int \<Rightarrow> bool" where
  "valid_channel c = (0 \<le> c \<and> c \<le> 255)"

definition valid_rgb :: "rgb \<Rightarrow> bool" where
  "valid_rgb p = (case p of (r, g, b) \<Rightarrow> valid_channel r \<and> valid_channel g \<and> valid_channel b)"

definition valid_image :: "image \<Rightarrow> bool" where
  "valid_image img = list_all (list_all valid_rgb) img"

definition in_range :: "real \<times> real \<times> real \<Rightarrow> bool" where
  "in_range p =
     (case p of (r, g, b) \<Rightarrow> 0 \<le> r \<and> r \<le> 255 \<and> 0 \<le> g \<and> g \<le> 255 \<and> 0 \<le> b \<and> b \<le> 255)"

definition buffer_ok :: "buffer \<Rightarrow> bool" where
  "buffer_ok arr = list_all (list_all in_range) arr"


text \<open>What the table holds once \<^verbatim>\<open>_build_color_lookup_table\<close> has run on an empty
  table: the direct match of every key of the grid, and nothing else.\<close>

definition built :: "(rgb \<rightharpoonup> entry) \<Rightarrow> bool" where
  "built cache \<longleftrightarrow>
     (\<forall>k \<in> set cache_keys. find_closest_eink_color_direct k True = Inr (cache k)) \<and>
     (\<forall>k. k \<notin> set cache_keys \<longrightarrow> cache k = None)"

subsection \<open>The algorithms as the specification words them\<close>

text \<open>Section 4.1 of the specification: normalise, decode the sRGB gamma, multiply by the
  sRGB to XYZ matrix, divide by the D65 white point, apply the CIE nonlinearity, and
  combine.\<close>

definition spec_gamma_decode :: "real \<Rightarrow> real" where
  "spec_gamma_decode c = (if c > 0.04045 then ((c + 0.055) / 1.055) powr 2.4 else c / 12.92)"

definition spec_srgb_to_xyz :: "real list list" where
  "spec_srgb_to_xyz =
     [[0.4124564, 0.3575761, 0.1804375],
      [0.2126729, 0.7151522, 0.0721750],
      [0.0193339, 0.1191920, 0.9503041]]"

definition spec_d65 :: "real list" where
  "spec_d65 = [0.95047, 1.0, 1.08883]"

definition spec_cie_f :: "real \<Rightarrow> real" where
  "spec_cie_f t = (if t > 0.008856 then t powr (1 / 3) else 7.787 * t + 16 / 116)"

definition spec_rgb_to_lab :: "rgb \<Rightarrow> lab" where
  "spec_rgb_to_lab rgb =
     (case rgb of (r, g, b) \<Rightarrow>
        let normalized = map (\<lambda>c. real_of_int c / 255) [r, g, b];
            linear = map spec_gamma_decode normalized;
            xyz = map (\<lambda>row. sum_list (map2 (\<lambda>c m. c * m) linear row)) spec_srgb_to_xyz;
            white = map2 (\<lambda>v n. v / n) xyz spec_d65;
            fx = spec_cie_f (white ! 0);
            fy = spec_cie_f (white ! 1);
            fz = spec_cie_f (white ! 2)
        in (116 * fy - 16, 500 * (fx - fy), 200 * (fy - fz)))"

text \<open>Section 4.2 of the specification: the simplified metric.\<close>

definition spec_simplified_delta_e :: "lab \<Rightarrow> lab \<Rightarrow> real" where
  "spec_simplified_delta_e lab1 lab2 =
     (case lab1 of (L1, a1, b1) \<Rightarrow> case lab2 of (L2, a2, b2) \<Rightarrow>
        let C1 = sqrt (a1\<^sup>2 + b1\<^sup>2);
            C2 = sqrt (a2\<^sup>2 + b2\<^sup>2);
            dL = L2 - L1;
            dC = C2 - C1;
            dH = sqrt (max 0 ((a2 - a1)\<^sup>2 + (b2 - b1)\<^sup>2 - dC\<^sup>2))
        in sqrt (dL\<^sup>2 + dC\<^sup>2 + dH\<^sup>2))"

section \<open>Properties\<close>

subsection \<open>Colour conversion and the metric\<close>

lemma gamma_correct_spec: "gamma_correct = spec_gamma_decode"
  by (rule ext) (simp only: gamma_correct_def spec_gamma_decode_def)

lemma f_spec: "f = spec_cie_f"
  by (rule ext) (simp only: f_def spec_cie_f_def)

lemma rgb_to_lab_eq_spec: "rgb_to_lab (r, g, b) = spec_rgb_to_lab (r, g, b)"
  unfolding rgb_to_lab_def spec_rgb_to_lab_def gamma_correct_spec f_spec
    spec_srgb_to_xyz_def spec_d65_def Let_def
  by (simp add: mult.commute add.assoc)

text \<open>
  Claim C3. For every RGB triple with channels in 0..255, \<^verbatim>\<open>_rgb_to_lab\<close> computes the
  algorithm of section 4.1: each channel normalised into [0,1], gamma decoding, the
  sRGB to XYZ matrix, division by the D65 white point, the CIE nonlinearity, and
  \<open>L = 116 fy - 16\<close>, \<open>a = 500 (fx - fy)\<close>, \<open>b = 200 (fy - fz)\<close>. The function is total:
  the source divides by non-zero constants only and takes each power of a positive base,
  so it has no raising branch to model.
\<close>

theorem rgb_to_lab_is_spec:
  assumes "valid_rgb (r, g, b)"
  shows "rgb_to_lab (r, g, b) = spec_rgb_to_lab (r, g, b) \<and>
         list_all (\<lambda>c. 0 \<le> real_of_int c / 255 \<and> real_of_int c / 255 \<le> 1) [r, g, b]"
proof -
  have "list_all (\<lambda>c. 0 \<le> real_of_int c / 255 \<and> real_of_int c / 255 \<le> 1) [r, g, b]"
    using assms by (simp add: valid_rgb_def valid_channel_def)
  with rgb_to_lab_eq_spec show ?thesis by blast
qed

theorem rgb_to_lab_is_spec_witness:
  "valid_rgb (255, 165, 0) \<and> rgb_to_lab (255, 165, 0) = spec_rgb_to_lab (255, 165, 0)"
proof -
  have v: "valid_rgb (255, 165, 0)"
    by (simp add: valid_rgb_def valid_channel_def)
  from rgb_to_lab_is_spec [OF v] v show ?thesis by blast
qed

text \<open>
  Claim C4. For every pair of LAB triples, \<^verbatim>\<open>_delta_e_ciede2000\<close> is the simplified
  metric of section 4.2: the two chromas, \<open>dL\<close>, \<open>dC\<close>,
  \<open>dH = sqrt (max 0 (da\<^sup>2 + db\<^sup>2 - dC\<^sup>2))\<close> and the unit-weight combination
  \<open>sqrt (dL\<^sup>2 + dC\<^sup>2 + dH\<^sup>2)\<close>, with no rotation or compensation term.
\<close>

theorem delta_e_ciede2000_is_spec:
  "delta_e_ciede2000 lab1 lab2 = spec_simplified_delta_e lab1 lab2"
  by (cases lab1, cases lab2)
     (simp add: delta_e_ciede2000_def spec_simplified_delta_e_def Let_def)

subsection \<open>The direct matcher and the lookup table\<close>


lemma closest_scan_ok:
  assumes "\<forall>(name, rgb_val, lab_val) \<in> set xs. \<exists>index. is_palette_entry (name, rgb_val, index)"
    and "case ci of None \<Rightarrow> mi = None | Some e \<Rightarrow> is_palette_entry e"
  shows "\<exists>m c. closest_scan d t xs (mi, ci) = Inr (m, c) \<and>
           (case c of None \<Rightarrow> xs = [] \<and> ci = None | Some e \<Rightarrow> is_palette_entry e)"
  using assms
proof (induction xs arbitrary: mi ci)
  case Nil
  then show ?case by (auto split: option.splits)
next
  case (Cons x xs)
  obtain name rgb_val lab_val where x: "x = (name, rgb_val, lab_val)" by (cases x) auto
  from Cons.prems(1) x obtain index where idx: "is_palette_entry (name, rgb_val, index)" by auto
  then have mapi: "map_of COLOR_INDICES name = Some index" by (simp add: is_palette_entry_def)
  have rest: "\<forall>(name, rgb_val, lab_val) \<in> set xs. \<exists>index. is_palette_entry (name, rgb_val, index)"
    using Cons.prems(1) by simp
  show ?case
  proof (cases "below_min (d t lab_val) mi")
    case True
    from Cons.IH[OF rest, where ci="Some (name, rgb_val, index)" and mi="Some (d t lab_val)"] idx
    obtain m c where "closest_scan d t xs (Some (d t lab_val), Some (name, rgb_val, index)) = Inr (m, c)"
      and "case c of None \<Rightarrow> False | Some e \<Rightarrow> is_palette_entry e"
      by (auto split: option.splits)
    with True mapi x show ?thesis by (auto split: option.splits)
  next
    case False
    then have "mi \<noteq> None" by (cases mi) (auto simp: below_min_def)
    with Cons.prems(2) obtain e0 where c0: "ci = Some e0" "is_palette_entry e0"
      by (cases ci) auto
    from Cons.IH[OF rest, where ci=ci and mi=mi] c0
    obtain m c where "closest_scan d t xs (mi, ci) = Inr (m, c)"
      and "case c of None \<Rightarrow> False | Some e \<Rightarrow> is_palette_entry e"
      by (auto split: option.splits)
    with False x show ?thesis by (auto split: option.splits)
  qed
qed

lemma eink_color_list_entries:
  "\<forall>(name, rgb_val, lab_val) \<in> set eink_color_list. \<exists>index. is_palette_entry (name, rgb_val, index)"
  by (simp add: eink_color_list_def EINK_COLORS_def COLOR_INDICES_def is_palette_entry_def)

lemma eink_color_list_nonempty: "eink_color_list \<noteq> []"
  by (simp add: eink_color_list_def EINK_COLORS_def)

lemma direct_ok:
  "\<exists>e. find_closest_eink_color_direct rgb u = Inr (Some e) \<and> is_palette_entry e"
proof -
  let ?d = "if u then delta_e_ciede2000 else delta_e_cie76"
  from closest_scan_ok[OF eink_color_list_entries, where ci=None and mi=None and d="?d" and t="rgb_to_lab rgb"]
  obtain m c where r: "closest_scan ?d (rgb_to_lab rgb) eink_color_list (None, None) = Inr (m, c)"
    and c: "case c of None \<Rightarrow> eink_color_list = [] | Some e \<Rightarrow> is_palette_entry e"
    by (auto split: option.splits)
  from c eink_color_list_nonempty obtain e where "c = Some e" "is_palette_entry e"
    by (cases c) auto
  with r show ?thesis by (simp add: find_closest_eink_color_direct_def Let_def)
qed

lemma cache_store_ok:
  "\<exists>e. find_closest_eink_color_direct k True = Inr (Some e) \<and>
       cache_store cache k = Inr (cache(k \<mapsto> e))"
proof -
  from direct_ok[of k True] obtain e where e: "find_closest_eink_color_direct k True = Inr (Some e)"
    by blast
  then have "cache_store cache k = Inr (cache(k \<mapsto> e))"
    by (cases e) (simp add: cache_store_def)
  with e show ?thesis by blast
qed

lemma build_loop_ok:
  "\<exists>cache'. for_loop cache_store ks cache = Inr cache' \<and>
     (\<forall>k \<in> set ks. find_closest_eink_color_direct k True = Inr (cache' k)) \<and>
     (\<forall>k. k \<notin> set ks \<longrightarrow> cache' k = cache k)"
proof (induction ks arbitrary: cache)
  case Nil
  then show ?case by simp
next
  case (Cons k ks)
  from cache_store_ok[of k cache] obtain e where
    e: "find_closest_eink_color_direct k True = Inr (Some e)" and
    st: "cache_store cache k = Inr (cache(k \<mapsto> e))"
    by blast
  from Cons.IH[of "cache(k \<mapsto> e)"] obtain cache' where
    b: "for_loop cache_store ks (cache(k \<mapsto> e)) = Inr cache'" and
    hit: "\<forall>k' \<in> set ks. find_closest_eink_color_direct k' True = Inr (cache' k')" and
    miss: "\<forall>k'. k' \<notin> set ks \<longrightarrow> cache' k' = (cache(k \<mapsto> e)) k'"
    by blast
  have 1: "for_loop cache_store (k # ks) cache = Inr cache'"
    using st b by simp
  have 2: "find_closest_eink_color_direct k' True = Inr (cache' k')" if "k' \<in> set (k # ks)" for k'
  proof (cases "k' \<in> set ks")
    case True
    with hit show ?thesis by blast
  next
    case False
    with that have "k' = k" by simp
    from miss[rule_format, of k'] False have "cache' k' = (cache(k \<mapsto> e)) k'" by blast
    with \<open>k' = k\<close> have "cache' k' = Some e" by simp
    with e \<open>k' = k\<close> show ?thesis by simp
  qed
  have 3: "cache' k' = cache k'" if "k' \<notin> set (k # ks)" for k'
  proof -
    from that have "k' \<notin> set ks" and "k' \<noteq> k" by auto
    with miss[rule_format, of k'] show ?thesis by simp
  qed
  from 1 2 3 show ?case by blast
qed

lemma range_step_iff: "x \<in> set range_step \<longleftrightarrow> 0 \<le> x \<and> x \<le> 255 \<and> x mod 4 = 0"
proof
  assume "x \<in> set range_step"
  then obtain i where "i < 64" "x = 4 * int i" by (auto simp: range_step_def)
  then show "0 \<le> x \<and> x \<le> 255 \<and> x mod 4 = 0" by simp
next
  assume a: "0 \<le> x \<and> x \<le> 255 \<and> x mod 4 = 0"
  then have "x = 4 * int (nat (x div 4))" and "nat (x div 4) < 64" by auto
  then have "x \<in> (\<lambda>i. 4 * int i) ` {0..<64}" by (intro image_eqI) auto
  then show "x \<in> set range_step" by (simp add: range_step_def)
qed

lemma cache_keys_iff:
  "(r, g, b) \<in> set cache_keys \<longleftrightarrow> r \<in> set range_step \<and> g \<in> set range_step \<and> b \<in> set range_step"
  unfolding cache_keys_def by auto


lemma build_ok: "\<exists>cache. build_color_lookup_table Map.empty = Inr cache \<and> built cache"
  using build_loop_ok[of cache_keys Map.empty]
  unfolding build_color_lookup_table_def built_def by simp

lemma init_built:
  assumes "init fast_dither = Inr self"
  shows "built (color_cache self)"
proof -
  from build_ok obtain cache where
    c: "build_color_lookup_table Map.empty = Inr cache" and b: "built cache"
    by blast
  from assms c have "color_cache self = cache"
    by (auto simp: init_def logging_warning_def split: option.splits sum.splits)
  with b show ?thesis by simp
qed

lemma init_None_ok: "\<exists>self. init None = Inr self \<and> fast_ditherer self = None"
proof -
  from build_ok obtain cache where "build_color_lookup_table Map.empty = Inr cache" by blast
  then show ?thesis by (simp add: init_def)
qed

lemma cache_key_in_keys:
  assumes "valid_rgb (r, g, b)"
  shows "((r div 4) * 4, (g div 4) * 4, (b div 4) * 4) \<in> set cache_keys"
proof -
  have k: "(c div 4) * 4 \<in> set range_step" if "valid_channel c" for c
  proof -
    from that have "0 \<le> c" "c \<le> 255" by (simp_all add: valid_channel_def)
    then have "0 \<le> (c div 4) * 4 \<and> (c div 4) * 4 \<le> 255 \<and> ((c div 4) * 4) mod 4 = 0"
      by auto
    then show ?thesis by (simp only: range_step_iff)
  qed
  from assms show ?thesis
    by (simp only: cache_keys_iff valid_rgb_def prod.case k)
qed

lemma cache_hit:
  assumes "built cache" and "k \<in> set cache_keys"
  shows "\<exists>e. cache k = Some e \<and> find_closest_eink_color_direct k True = Inr (Some e) \<and>
             is_palette_entry e"
proof -
  from assms have "find_closest_eink_color_direct k True = Inr (cache k)"
    unfolding built_def by blast
  with direct_ok[of k True] show ?thesis by auto
qed

lemma find_closest_cached:
  assumes "init fast_dither = Inr self" and "valid_rgb (r, g, b)"
  shows "find_closest_eink_color self (r, g, b) use =
           find_closest_eink_color_direct ((r div 4) * 4, (g div 4) * 4, (b div 4) * 4) True"
proof -
  let ?k = "((r div 4) * 4, (g div 4) * 4, (b div 4) * 4)"
  from cache_hit[OF init_built[OF assms(1)] cache_key_in_keys[OF assms(2)]]
  obtain e where "color_cache self ?k = Some e" "find_closest_eink_color_direct ?k True = Inr (Some e)"
    by blast
  then show ?thesis by (simp add: find_closest_eink_color_def Let_def)
qed

text \<open>
  Claim C6. For every grid-aligned RGB input (channels in 0..255, each a multiple of the
  cache step 4), the cached matcher \<^verbatim>\<open>find_closest_eink_color\<close> of a constructed
  mapper and the direct scan \<^verbatim>\<open>_find_closest_eink_color_direct\<close> (with its default
  metric) return the same palette entry: name, RGB and index.
\<close>

theorem cached_agrees_with_direct_on_grid:
  assumes "init fast_dither = Inr self"
    and "valid_rgb (r, g, b)"
    and "r mod 4 = 0" and "g mod 4 = 0" and "b mod 4 = 0"
  shows "find_closest_eink_color self (r, g, b) use_ciede2000 =
           find_closest_eink_color_direct (r, g, b) True"
proof -
  from assms(3-5) have "(r div 4) * 4 = r" "(g div 4) * 4 = g" "(b div 4) * 4 = b"
    by auto
  with find_closest_cached[OF assms(1,2), of use_ciede2000] show ?thesis by simp
qed

theorem cached_agrees_with_direct_on_grid_witness:
  "\<exists>self. init None = Inr self \<and> valid_rgb (128, 64, 252) \<and>
     (128::int) mod 4 = 0 \<and> (64::int) mod 4 = 0 \<and> (252::int) mod 4 = 0 \<and>
     find_closest_eink_color self (128, 64, 252) True =
       find_closest_eink_color_direct (128, 64, 252) True"
proof -
  from init_None_ok obtain self where i: "init None = Inr self" by blast
  have v: "valid_rgb (128, 64, 252)" by (simp add: valid_rgb_def valid_channel_def)
  have m: "(128::int) mod 4 = 0" "(64::int) mod 4 = 0" "(252::int) mod 4 = 0" by simp_all
  have c: "find_closest_eink_color self (128, 64, 252) True =
       find_closest_eink_color_direct (128, 64, 252) True"
    by (rule cached_agrees_with_direct_on_grid[OF i v m])
  show ?thesis
    by (rule exI[of _ self]) (simp only: i v m c simp_thms)
qed




subsection \<open>Nearest-colour quantization stays in the palette\<close>


lemma palette_entry_rgb:
  assumes "is_palette_entry (name, rgb_val, index)"
  shows "palette_rgb rgb_val"
proof -
  from assms have "map_of EINK_COLORS name = Some rgb_val" by (simp add: is_palette_entry_def)
  then have "(name, rgb_val) \<in> set EINK_COLORS" by (rule map_of_SomeD)
  then have "snd (name, rgb_val) \<in> snd ` set EINK_COLORS" by (rule imageI)
  then show ?thesis by (simp add: palette_rgb_def)
qed

lemma find_closest_ok:
  assumes "init fast_dither = Inr self"
  shows "\<exists>e. find_closest_eink_color self rgb use = Inr (Some e) \<and> is_palette_entry e"
proof -
  obtain r g b where rgb: "rgb = (r, g, b)" by (cases rgb) auto
  let ?k = "((r div 4) * 4, (g div 4) * 4, (b div 4) * 4)"
  show ?thesis
  proof (cases "color_cache self ?k")
    case None
    with rgb have "find_closest_eink_color self rgb use = find_closest_eink_color_direct rgb use"
      by (simp add: find_closest_eink_color_def Let_def)
    with direct_ok[of rgb use] show ?thesis by simp
  next
    case (Some hit)
    with init_built[OF assms] have "?k \<in> set cache_keys"
      unfolding built_def by (metis option.distinct(1))
    from cache_hit[OF init_built[OF assms] this] Some have "is_palette_entry hit" by auto
    moreover from Some rgb have "find_closest_eink_color self rgb use = Inr (Some hit)"
      by (simp add: find_closest_eink_color_def Let_def)
    ultimately show ?thesis by blast
  qed
qed

lemma closest_rgb_of_ok:
  assumes "init fast_dither = Inr self"
  shows "\<exists>p. closest_rgb_of self rgb = Inr p \<and> palette_rgb p"
proof -
  from find_closest_ok[OF assms, of rgb True] obtain e where
    e: "find_closest_eink_color self rgb True = Inr (Some e)" and p: "is_palette_entry e"
    by blast
  obtain name rgb_val index where ee: "e = (name, rgb_val, index)" by (cases e) auto
  with e have "closest_rgb_of self rgb = Inr rgb_val" by (simp add: closest_rgb_of_def)
  moreover from p ee have "palette_rgb rgb_val" by (auto intro: palette_entry_rgb)
  ultimately show ?thesis by blast
qed

lemma for_each_ok:
  assumes "\<And>x. \<exists>v. g x = Inr v \<and> P v"
  shows "\<exists>vs. for_each g xs = Inr vs \<and> length vs = length xs \<and> list_all P vs"
proof (induction xs)
  case Nil
  then show ?case by simp
next
  case (Cons x xs)
  from assms[of x] obtain v where "g x = Inr v" "P v" by blast
  moreover from Cons.IH obtain vs where "for_each g xs = Inr vs" "length vs = length xs" "list_all P vs"
    by blast
  ultimately show ?case by simp
qed

lemma for_each_rows_ok:
  assumes "\<And>x. \<exists>v. g x = Inr v \<and> P v"
  shows "\<exists>out. for_each (for_each g) img = Inr out \<and> map length out = map length img \<and>
           list_all (list_all P) out"
proof (induction img)
  case Nil
  then show ?case by simp
next
  case (Cons row img)
  from for_each_ok[of g P row, OF assms] obtain vs where
    "for_each g row = Inr vs" "length vs = length row" "list_all P vs" by blast
  moreover from Cons.IH obtain out where "for_each (for_each g) img = Inr out"
    "map length out = map length img" "list_all (list_all P) out"
    by blast
  ultimately show ?case by simp
qed

lemma simple_scan_palette:
  assumes "set xs \<subseteq> set EINK_COLORS" and "palette_rgb c"
  shows "palette_rgb (snd (simple_scan rgb xs (m, c)))"
  using assms
proof (induction xs arbitrary: m c)
  case Nil
  then show ?case by simp
next
  case (Cons x xs)
  obtain name eink_rgb where x: "x = (name, eink_rgb)" by (cases x) auto
  with Cons.prems(1) have "(name, eink_rgb) \<in> set EINK_COLORS" by simp
  then have "snd (name, eink_rgb) \<in> snd ` set EINK_COLORS" by (rule imageI)
  then have e: "palette_rgb eink_rgb" by (simp add: palette_rgb_def)
  from Cons.prems(1) have s: "set xs \<subseteq> set EINK_COLORS" by simp
  show ?case
  proof (cases "below_min (rgb_distance rgb eink_rgb) m")
    case True
    with Cons.IH[OF s e] x show ?thesis by (simp add: Let_def)
  next
    case False
    with Cons.IH[OF s Cons.prems(2)] x show ?thesis by (simp add: Let_def)
  qed
qed

lemma simple_pixel_palette: "palette_rgb (simple_pixel rgb)"
proof -
  have "palette_rgb (0, 0, 0)" by (simp add: palette_rgb_def EINK_COLORS_def)
  with simple_scan_palette[of EINK_COLORS "(0, 0, 0)" rgb None] show ?thesis
    by (simp add: simple_pixel_def)
qed

lemma same_widths:
  assumes "map length out = map length img"
  shows "width_of out = width_of img"
  using assms by (cases out; cases img) (simp_all add: width_of_def)

text \<open>
  Claim C2. For every input raster and for either method, \<^verbatim>\<open>quantize_image\<close> of a
  constructed mapper returns a raster (it does not raise) of the same height and width
  as the input, each pixel of which is one of the seven RGB values of \<^verbatim>\<open>EINK_COLORS\<close>.
\<close>

theorem quantize_image_output_in_palette:
  assumes "init fast_dither = Inr self"
  shows "\<exists>out. quantize_image self img method = Inr out \<and>
           height_of out = height_of img \<and> width_of out = width_of img \<and>
           map length out = map length img \<and> list_all (list_all palette_rgb) out"
proof (cases "method = ''perceptual''")
  case True
  from for_each_rows_ok[of "closest_rgb_of self" palette_rgb img, OF closest_rgb_of_ok[OF assms]]
  obtain out where o: "for_each (for_each (closest_rgb_of self)) img = Inr out"
    "map length out = map length img" "list_all (list_all palette_rgb) out"
    by blast
  from o(2) have "length out = length img" by (rule map_eq_imp_length_eq)
  moreover from o(2) have "width_of out = width_of img" by (rule same_widths)
  ultimately show ?thesis using o True by (simp add: quantize_image_def height_of_def)
next
  case False
  have "list_all (list_all palette_rgb) (map (map simple_pixel) img)"
    by (simp add: list_all_iff simple_pixel_palette)
  moreover have "width_of (map (map simple_pixel) img) = width_of img"
    by (rule same_widths) (simp add: comp_def)
  ultimately show ?thesis using False by (simp add: quantize_image_def height_of_def comp_def)
qed

lemma rgb_distance_less:
  "rgb_distance p q < rgb_distance p q' \<longleftrightarrow> squared_sum p q < squared_sum p q'"
  by (simp add: rgb_distance_def)

lemma sums_black:
  "squared_sum (0, 0, 0) (0, 0, 0) = 0"
  "squared_sum (0, 0, 0) (255, 255, 255) = 3"
  "squared_sum (0, 0, 0) (0, 255, 0) = 1"
  "squared_sum (0, 0, 0) (0, 0, 255) = 1"
  "squared_sum (0, 0, 0) (255, 0, 0) = 1"
  "squared_sum (0, 0, 0) (255, 255, 0) = 2"
  "squared_sum (0, 0, 0) (255, 165, 0) = 90"
  by code_simp+

lemma simple_pixel_black: "simple_pixel (0, 0, 0) = (0, 0, 0)"
  by (simp add: simple_pixel_def EINK_COLORS_def below_min_def rgb_distance_less sums_black)

lemma sums_mid_gray:
  "squared_sum (128, 128, 128) (0, 0, 0) = 0"
  "squared_sum (128, 128, 128) (255, 255, 255) = 3"
  "squared_sum (128, 128, 128) (0, 255, 0) = 1"
  "squared_sum (128, 128, 128) (0, 0, 255) = 1"
  "squared_sum (128, 128, 128) (255, 0, 0) = 1"
  "squared_sum (128, 128, 128) (255, 255, 0) = 2"
  "squared_sum (128, 128, 128) (255, 165, 0) = 90"
  by code_simp+

lemma simple_pixel_mid_gray: "simple_pixel (128, 128, 128) = (0, 0, 0)"
  by (simp add: simple_pixel_def EINK_COLORS_def below_min_def rgb_distance_less sums_mid_gray)

lemma sums_light_gray:
  "squared_sum (200, 200, 200) (0, 0, 0) = 192"
  "squared_sum (200, 200, 200) (255, 255, 255) = 115"
  "squared_sum (200, 200, 200) (0, 255, 0) = 81"
  "squared_sum (200, 200, 200) (0, 0, 255) = 81"
  "squared_sum (200, 200, 200) (255, 0, 0) = 81"
  "squared_sum (200, 200, 200) (255, 255, 0) = 226"
  "squared_sum (200, 200, 200) (255, 165, 0) = 218"
  by code_simp+

lemma simple_pixel_light_gray: "simple_pixel (200, 200, 200) = (0, 255, 0)"
  by (simp add: simple_pixel_def EINK_COLORS_def below_min_def rgb_distance_less sums_light_gray)

lemma sums_reddish:
  "squared_sum (250, 10, 12) (0, 0, 0) = 24"
  "squared_sum (250, 10, 12) (255, 255, 255) = 59"
  "squared_sum (250, 10, 12) (0, 255, 0) = 45"
  "squared_sum (250, 10, 12) (0, 0, 255) = 49"
  "squared_sum (250, 10, 12) (255, 0, 0) = 13"
  "squared_sum (250, 10, 12) (255, 255, 0) = 34"
  "squared_sum (250, 10, 12) (255, 165, 0) = 130"
  by code_simp+

lemma simple_pixel_reddish: "simple_pixel (250, 10, 12) = (255, 0, 0)"
  by (simp add: simple_pixel_def EINK_COLORS_def below_min_def rgb_distance_less sums_reddish)

theorem quantize_image_output_in_palette_witness:
  "\<exists>self. init None = Inr self \<and>
     quantize_image self [[(128, 128, 128), (200, 200, 200)], [(250, 10, 12), (0, 0, 0)]] ''simple'' =
       Inr [[(0, 0, 0), (0, 255, 0)], [(255, 0, 0), (0, 0, 0)]] \<and>
     list_all (list_all palette_rgb) [[(0, 0, 0), (0, 255, 0)], [(255, 0, 0), (0, 0, 0)]]"
proof -
  from init_None_ok obtain self where i: "init None = Inr self" by blast
  have q: "quantize_image self [[(128, 128, 128), (200, 200, 200)], [(250, 10, 12), (0, 0, 0)]] ''simple'' =
       Inr [[(0, 0, 0), (0, 255, 0)], [(255, 0, 0), (0, 0, 0)]]"
    by (simp add: quantize_image_def simple_pixel_mid_gray simple_pixel_light_gray
        simple_pixel_reddish simple_pixel_black)
  from quantize_image_output_in_palette[OF i,
      of "[[(128, 128, 128), (200, 200, 200)], [(250, 10, 12), (0, 0, 0)]]" "''simple''"]
  have p: "list_all (list_all palette_rgb) [[(0, 0, 0), (0, 255, 0)], [(255, 0, 0), (0, 0, 0)]]"
    unfolding q by blast
  show ?thesis
    by (rule exI[of _ self]) (simp only: i q p simp_thms)
qed

subsection \<open>The working buffer of the error diffusion\<close>


lemma clip_bounds: "0 \<le> clip v 0 255 \<and> clip v 0 255 \<le> 255"
  by (simp add: clip_def)

lemma clip_pixel_in_range: "in_range (clip_pixel p)"
  by (cases p) (simp add: clip_pixel_def in_range_def clip_bounds)

lemma list_all_update:
  assumes "list_all P xs" and "P v"
  shows "list_all P (xs[i := v])"
proof -
  have "set (xs[i := v]) \<subseteq> insert v (set xs)" by (rule set_update_subset_insert)
  with assms show ?thesis by (auto simp: list_all_iff)
qed

lemma buffer_ok_update:
  assumes "buffer_ok arr" and "in_range v"
  shows "buffer_ok (arr[i := (arr ! i)[j := v]])"
proof (cases "i < length arr")
  case True
  with assms(1) have "list_all in_range (arr ! i)"
    by (simp add: buffer_ok_def list_all_length)
  from list_all_update[OF this assms(2)] have "list_all in_range ((arr ! i)[j := v])" .
  from list_all_update[OF assms(1)[unfolded buffer_ok_def] this] show ?thesis
    by (simp only: buffer_ok_def)
next
  case False
  then have "length arr \<le> i" by simp
  then have "arr[i := (arr ! i)[j := v]] = arr" by (rule list_update_beyond)
  with assms(1) show ?thesis by simp
qed

lemma distribute_buffer_ok:
  assumes "buffer_ok arr"
  shows "buffer_ok (distribute height width x y error_rgb arr k)"
proof -
  obtain dx dy weight where k: "k = (dx, dy, weight)" by (cases k) auto
  obtain nx ny where n: "neighbor x y dx dy = (nx, ny)" by (cases "neighbor x y dx dy") auto
  obtain tr tg tb where t: "arr ! nat ny ! nat nx = (tr, tg, tb)"
    by (cases "arr ! nat ny ! nat nx") auto
  obtain er eg eb where e: "error_rgb = (er, eg, eb)" by (cases error_rgb) auto
  show ?thesis
  proof (cases "0 \<le> nx \<and> nx < int width \<and> 0 \<le> ny \<and> ny < int height")
    case True
    then have "distribute height width x y error_rgb arr k =
        arr[nat ny := (arr ! nat ny)[nat nx :=
          clip_pixel (tr + er * weight, tg + eg * weight, tb + eb * weight)]]"
      by (simp add: distribute_def k n t e Let_def)
    with buffer_ok_update[OF assms clip_pixel_in_range] show ?thesis by simp
  next
    case False
    then have "distribute height width x y error_rgb arr k = arr"
      by (auto simp: distribute_def k n)
    with assms show ?thesis by simp
  qed
qed

lemma distribute_target_clamped:
  assumes "neighbor x y dx dy = (nx, ny)"
    and "0 \<le> nx \<and> nx < int width \<and> 0 \<le> ny \<and> ny < int height"
    and "nat ny < length arr" and "nat nx < length (arr ! nat ny)"
  shows "in_range (distribute height width x y error_rgb arr (dx, dy, weight) ! nat ny ! nat nx)"
proof -
  obtain tr tg tb where t: "arr ! nat ny ! nat nx = (tr, tg, tb)"
    by (cases "arr ! nat ny ! nat nx") auto
  obtain er eg eb where e: "error_rgb = (er, eg, eb)" by (cases error_rgb) auto
  from assms(2) have "distribute height width x y error_rgb arr (dx, dy, weight) =
        arr[nat ny := (arr ! nat ny)[nat nx :=
          clip_pixel (tr + er * weight, tg + eg * weight, tb + eb * weight)]]"
    by (simp add: distribute_def assms(1) t e Let_def)
  with assms(3,4) show ?thesis by (simp add: clip_pixel_in_range)
qed

lemma foldl_distribute_buffer_ok:
  assumes "buffer_ok arr"
  shows "buffer_ok (foldl (distribute height width x y error_rgb) arr ker)"
  using assms by (induction ker arbitrary: arr) (simp_all add: distribute_buffer_ok)

lemma dither_pixel_img_array:
  assumes "dither_pixel self ker height width y st x = Inr st'"
  shows "\<exists>error_rgb. img_array st' = foldl (distribute height width x y error_rgb) (img_array st) ker"
proof -
  obtain pr pg pb where p: "img_array st ! y ! x = (pr, pg, pb)"
    by (cases "img_array st ! y ! x") auto
  obtain cr cg cb where c: "clip_pixel (pr, pg, pb) = (cr, cg, cb)"
    by (cases "clip_pixel (pr, pg, pb)") auto
  let ?cur = "(astype_int cr, astype_int cg, astype_int cb)"
  show ?thesis
  proof (cases "lookup_local self (local_cache st) ?cur")
    case (Inl e)
    with assms p c show ?thesis by (simp add: dither_pixel_def Let_def)
  next
    case (Inr res)
    obtain qr qg qb cache' where r: "res = ((qr, qg, qb), cache')" by (cases res) auto
    from assms p c Inr r have "img_array st' =
        foldl (distribute height width x y (pr - real_of_int qr, pg - real_of_int qg, pb - real_of_int qb))
          (img_array st) ker"
      by (auto simp: dither_pixel_def Let_def)
    then show ?thesis by blast
  qed
qed

lemma dither_pixel_buffer_ok:
  assumes "buffer_ok (img_array st)" and "dither_pixel self ker height width y st x = Inr st'"
  shows "buffer_ok (img_array st')"
proof -
  from dither_pixel_img_array[OF assms(2)] obtain error_rgb where
    "img_array st' = foldl (distribute height width x y error_rgb) (img_array st) ker" by blast
  with foldl_distribute_buffer_ok[OF assms(1)] show ?thesis by simp
qed

lemma for_loop_invariant:
  assumes "\<And>s x s'. I s \<Longrightarrow> body s x = Inr s' \<Longrightarrow> I s'"
    and "I s" and "for_loop body xs s = Inr s'"
  shows "I s'"
  using assms(2,3)
proof (induction xs arbitrary: s)
  case Nil
  then show ?case by simp
next
  case (Cons x xs)
  from Cons.prems(2) obtain s1 where b: "body s x = Inr s1" and r: "for_loop body xs s1 = Inr s'"
    by (auto split: sum.splits)
  from assms(1)[OF Cons.prems(1) b] have "I s1" .
  from Cons.IH[OF this r] show ?case .
qed

lemma for_loop_error:
  assumes "\<And>s x e. body s x = Inl e \<Longrightarrow> Q e" and "for_loop body xs s = Inl e"
  shows "Q e"
  using assms(2)
proof (induction xs arbitrary: s)
  case Nil
  then show ?case by simp
next
  case (Cons x xs)
  show ?case
  proof (cases "body s x")
    case (Inl e')
    with Cons.prems have "e' = e" by simp
    with assms(1)[OF Inl] show ?thesis by simp
  next
    case (Inr s1)
    with Cons.prems have "for_loop body xs s1 = Inl e" by simp
    then show ?thesis by (rule Cons.IH)
  qed
qed

lemma for_loop_total:
  assumes "\<And>s x. \<exists>s'. body s x = Inr s'"
  shows "\<exists>s'. for_loop body xs s = Inr s'"
proof (induction xs arbitrary: s)
  case Nil
  then show ?case by simp
next
  case (Cons x xs)
  from assms[of s x] obtain s1 where "body s x = Inr s1" by blast
  with Cons.IH[of s1] show ?case by simp
qed

lemma lookup_local_total:
  assumes "init fast_dither = Inr self"
  shows "\<exists>res. lookup_local self cache current_rgb = Inr res"
proof (cases "cache current_rgb")
  case None
  from closest_rgb_of_ok[OF assms, of current_rgb] obtain p where
    "closest_rgb_of self current_rgb = Inr p" by blast
  with None have "lookup_local self cache current_rgb = Inr (p, cache(current_rgb \<mapsto> p))"
    by (simp add: lookup_local_def)
  then show ?thesis by blast
next
  case (Some a)
  then have "lookup_local self cache current_rgb = Inr (a, cache)"
    by (simp add: lookup_local_def)
  then show ?thesis by blast
qed

lemma dither_pixel_total:
  assumes "init fast_dither = Inr self"
  shows "\<exists>st'. dither_pixel self ker height width y st x = Inr st'"
proof -
  obtain pr pg pb where p: "img_array st ! y ! x = (pr, pg, pb)"
    by (cases "img_array st ! y ! x") auto
  obtain cr cg cb where c: "clip_pixel (pr, pg, pb) = (cr, cg, cb)"
    by (cases "clip_pixel (pr, pg, pb)") auto
  from lookup_local_total[OF assms] obtain res where
    l: "lookup_local self (local_cache st) (astype_int cr, astype_int cg, astype_int cb) = Inr res"
    by blast
  obtain qr qg qb cache' where r: "res = ((qr, qg, qb), cache')" by (cases res) auto
  from p c l r show ?thesis by (simp add: dither_pixel_def Let_def)
qed

lemma dither_row_error:
  assumes "init fast_dither = Inr self"
    and "dither_row self slow ker height width st y = Inl e"
  shows "e = ZeroDivisionError \<and> height div 4 = 0"
proof (cases "progress_check slow height y")
  case (Inl e')
  with assms(2) have "e' = e" by (simp add: dither_row_def)
  with Inl show ?thesis by (auto simp: progress_check_def split: if_splits)
next
  case (Inr u)
  from for_loop_total[of "dither_pixel self ker height width y", OF dither_pixel_total[OF assms(1)]]
  obtain st' where "for_loop (dither_pixel self ker height width y) (x_range width y) st = Inr st'"
    by blast
  with Inr assms(2) show ?thesis by (simp add: dither_row_def)
qed

lemma dither_row_total:
  assumes "init fast_dither = Inr self" and "height div 4 \<noteq> 0"
  shows "\<exists>st'. dither_row self slow ker height width st y = Inr st'"
proof (cases "dither_row self slow ker height width st y")
  case (Inl e)
  from dither_row_error[OF assms(1) Inl] assms(2) show ?thesis by simp
next
  case (Inr st')
  then show ?thesis by blast
qed

lemma dither_row_buffer_ok:
  assumes "buffer_ok (img_array st)" and "dither_row self slow ker height width st y = Inr st'"
  shows "buffer_ok (img_array st')"
proof -
  from assms(2) have "for_loop (dither_pixel self ker height width y) (x_range width y) st = Inr st'"
    by (simp add: dither_row_def split: sum.splits)
  with assms(1) show ?thesis
    by (rule for_loop_invariant[where I="\<lambda>s. buffer_ok (img_array s)", rotated]) 
       (rule dither_pixel_buffer_ok)
qed

lemma to_float32_buffer_ok:
  assumes "valid_image img"
  shows "buffer_ok (to_float32 img)"
proof -
  have "in_range (case p of (r, g, b) \<Rightarrow> (real_of_int r, real_of_int g, real_of_int b))"
    if "valid_rgb p" for p
    using that by (cases p) (simp add: valid_rgb_def valid_channel_def in_range_def)
  with assms show ?thesis
    by (simp add: valid_image_def buffer_ok_def to_float32_def list_all_iff)
qed

lemma height_of_to_float32: "height_of (to_float32 img) = height_of img"
  by (simp add: height_of_def to_float32_def)


lemma python_dithering_buffer_ok:
  assumes "buffer_ok arr" and "python_dithering self slow method arr = Inr st"
  shows "buffer_ok (img_array st)"
proof -
  let ?st0 = "\<lparr>img_array = arr,
      output_array = replicate (height_of arr) (replicate (width_of arr) (0, 0, 0)),
      local_cache = Map.empty\<rparr>"
  from assms(2) have r: "for_loop (dither_row self slow (error_kernel method) (height_of arr) (width_of arr))
      [0..<height_of arr] ?st0 = Inr st"
    by (simp add: python_dithering_def Let_def)
  from assms(1) have "buffer_ok (img_array ?st0)" by simp
  then show ?thesis using r
    by (rule for_loop_invariant[where I="\<lambda>s. buffer_ok (img_array s)", rotated])
       (rule dither_row_buffer_ok)
qed

lemma python_dithering_error:
  assumes "init fast_dither = Inr self" and "python_dithering self slow method arr = Inl e"
  shows "e = ZeroDivisionError \<and> height_of arr div 4 = 0"
proof -
  from assms(2) have "for_loop (dither_row self slow (error_kernel method) (height_of arr) (width_of arr))
      [0..<height_of arr] \<lparr>img_array = arr,
      output_array = replicate (height_of arr) (replicate (width_of arr) (0, 0, 0)),
      local_cache = Map.empty\<rparr> = Inl e"
    by (simp add: python_dithering_def Let_def)
  then show ?thesis
    by (rule for_loop_error[where Q="\<lambda>e. e = ZeroDivisionError \<and> height_of arr div 4 = 0", rotated])
       (rule dither_row_error[OF assms(1)])
qed

lemma python_dithering_total:
  assumes "init fast_dither = Inr self" and "height_of arr div 4 \<noteq> 0"
  shows "\<exists>st. python_dithering self slow method arr = Inr st"
proof (cases "python_dithering self slow method arr")
  case (Inl e)
  from python_dithering_error[OF assms(1) Inl] assms(2) show ?thesis by simp
next
  case (Inr st)
  then show ?thesis by blast
qed

text \<open>
  Claim C5. In the Python path of \<^verbatim>\<open>quantize_image_advanced_dithering\<close>, the pixel that
  receives a weighted error is clipped into [0,255] right after the addition, whatever it
  and the error were. Hence the working buffer, which starts from 8-bit values, holds
  only values in [0,255] before and after every pixel step and at the end of the run, so
  every value read from it is in that range. No pixel value makes the run raise: the one
  exception the run can raise is the ZeroDivisionError of the progress test, for an
  image of fewer than four rows, and with four rows or more the run returns.
\<close>

theorem dithering_buffer_stays_clamped:
  assumes "init fast_dither = Inr self" and "valid_image img"
  shows "(\<forall>x y dx dy weight nx ny height width error_rgb arr.
            neighbor x y dx dy = (nx, ny) \<and> 0 \<le> nx \<and> nx < int width \<and> 0 \<le> ny \<and> ny < int height \<and>
            nat ny < length arr \<and> nat nx < length (arr ! nat ny) \<longrightarrow>
            in_range (distribute height width x y error_rgb arr (dx, dy, weight) ! nat ny ! nat nx)) \<and>
         (\<forall>ker height width y st x st'.
            buffer_ok (img_array st) \<and> dither_pixel self ker height width y st x = Inr st' \<longrightarrow>
            buffer_ok (img_array st')) \<and>
         (\<forall>st. python_dithering self slow method (to_float32 img) = Inr st \<longrightarrow>
            buffer_ok (img_array st)) \<and>
         (\<forall>e. python_dithering self slow method (to_float32 img) = Inl e \<longrightarrow>
            e = ZeroDivisionError \<and> height_of img div 4 = 0) \<and>
         (height_of img div 4 \<noteq> 0 \<longrightarrow>
            (\<exists>st. python_dithering self slow method (to_float32 img) = Inr st))"
proof (intro conjI allI impI)
  fix x y dx dy weight nx ny height width error_rgb and arr :: buffer
  assume a: "neighbor x y dx dy = (nx, ny) \<and> 0 \<le> nx \<and> nx < int width \<and> 0 \<le> ny \<and> ny < int height \<and>
            nat ny < length arr \<and> nat nx < length (arr ! nat ny)"
  then show "in_range (distribute height width x y error_rgb arr (dx, dy, weight) ! nat ny ! nat nx)"
    by (intro distribute_target_clamped) simp_all
next
  fix ker height width y st x st'
  assume "buffer_ok (img_array st) \<and> dither_pixel self ker height width y st x = Inr st'"
  then show "buffer_ok (img_array st')"
    using dither_pixel_buffer_ok by blast
next
  fix st
  assume "python_dithering self slow method (to_float32 img) = Inr st"
  with to_float32_buffer_ok[OF assms(2)] show "buffer_ok (img_array st)"
    by (rule python_dithering_buffer_ok)
next
  fix e
  assume "python_dithering self slow method (to_float32 img) = Inl e"
  from python_dithering_error[OF assms(1) this] show "e = ZeroDivisionError"
    by simp
next
  fix e
  assume "python_dithering self slow method (to_float32 img) = Inl e"
  from python_dithering_error[OF assms(1) this] show "height_of img div 4 = 0"
    by (simp add: height_of_to_float32)
next
  assume "height_of img div 4 \<noteq> 0"
  then have "height_of (to_float32 img) div 4 \<noteq> 0" by (simp add: height_of_to_float32)
  with assms(1) show "\<exists>st. python_dithering self slow method (to_float32 img) = Inr st"
    by (rule python_dithering_total)
qed

theorem dithering_buffer_stays_clamped_witness:
  "\<exists>self. init None = Inr self \<and>
     valid_image [[(0, 0, 0)], [(255, 255, 255)], [(128, 128, 128)], [(255, 165, 0)]] \<and>
     (\<exists>st. python_dithering self (\<lambda>y. False) ''floyd_steinberg_7color''
             (to_float32 [[(0, 0, 0)], [(255, 255, 255)], [(128, 128, 128)], [(255, 165, 0)]]) = Inr st \<and>
           buffer_ok (img_array st)) \<and>
     distribute 1 2 0 0 (1000, -1000, 16) [[(0, 0, 0), (250, 3, 7)]] (1, 0, 7 / 16)
       = [[(0, 0, 0), (255, 0, 14)]] \<and>
     in_range (distribute 1 2 0 0 (1000, -1000, 16) [[(0, 0, 0), (250, 3, 7)]] (1, 0, 7 / 16) ! 0 ! 1)"
proof -
  let ?img = "[[(0, 0, 0)], [(255, 255, 255)], [(128, 128, 128)], [(255, 165, 0)]] :: image"
  from init_None_ok obtain self where i: "init None = Inr self" by blast
  have v: "valid_image ?img"
    by (simp add: valid_image_def valid_rgb_def valid_channel_def)
  have h: "height_of ?img div 4 \<noteq> 0" by (simp add: height_of_def)
  note t = dithering_buffer_stays_clamped[OF i v, of "\<lambda>y. False" "''floyd_steinberg_7color''"]
  note t1 = t[THEN conjunct1, rule_format]
  note t3 = t[THEN conjunct2, THEN conjunct2, THEN conjunct1, rule_format]
  note t5 = t[THEN conjunct2, THEN conjunct2, THEN conjunct2, THEN conjunct2, rule_format]
  from t5[OF h] obtain st where
    r: "python_dithering self (\<lambda>y. False) ''floyd_steinberg_7color'' (to_float32 ?img) = Inr st"
    by blast
  from t3[OF r] have b: "buffer_ok (img_array st)" .
  have n: "neighbor 0 0 1 0 = (1, 0)" by (simp add: neighbor_def)
  have d: "distribute 1 2 0 0 (1000, -1000, 16) [[(0, 0, 0), (250, 3, 7)]] (1, 0, 7 / 16)
       = [[(0, 0, 0), (255, 0, 14)]]"
    by (simp add: distribute_def n clip_pixel_def clip_def)
  from t1[where x=0 and y=0 and dx=1 and dy=0 and nx=1 and ny=0 and width=2 and height=1
      and arr="[[(0, 0, 0), (250, 3, 7)]]" and error_rgb="(1000, -1000, 16)" and weight="7 / 16"] n
  have c: "in_range (distribute 1 2 0 0 (1000, -1000, 16) [[(0, 0, 0), (250, 3, 7)]] (1, 0, 7 / 16) ! 0 ! 1)"
    by simp
  from r b have e: "\<exists>st. python_dithering self (\<lambda>y. False) ''floyd_steinberg_7color'' (to_float32 ?img) = Inr st \<and>
           buffer_ok (img_array st)" by blast
  show ?thesis
    by (rule exI[of _ self]) (simp only: i v e d c[unfolded d] simp_thms)
qed


subsection \<open>Serpentine scanning\<close>


























subsection \<open>Exceptions that reach the caller\<close>


text \<open>
  Claim C1 says that an exception raised by the Cython backend during
  \<^verbatim>\<open>quantize_image_advanced_dithering\<close> is caught and logged, that the Python path then
  runs, and that nothing reaches the caller. The exception is caught, but the handler
  itself raises: for a backend both of whose entry points raise, and for every image,
  method and clock, the call ends in NameError and the Python path is not reached.
\<close>

theorem fast_backend_failure_propagates:
  "quantize_image_advanced_dithering
     (self\<lparr>fast_ditherer := Some \<lparr>jarvis_judice_ninke_dither = (\<lambda>arr. Inl e1),
                                    floyd_steinberg_dither = (\<lambda>arr. Inl e2)\<rparr>\<rparr>)
     slow img method = Inl NameError"
  by (simp add: quantize_image_advanced_dithering_def fast_path_def logging_error_def Let_def)

text \<open>
  A direct call of \<^verbatim>\<open>quantize_image_advanced_dithering\<close> on an image of fewer than four
  rows, on the Python path and with less than three seconds on the clock, raises
  ZeroDivisionError before the first pixel is read: \<open>height div 4\<close> is zero. Here on the
  two mid-gray pixels, as a row and as a column.
\<close>

lemma mid_gray_pair_raises:
  "quantize_image_advanced_dithering (self\<lparr>fast_ditherer := None\<rparr>) (\<lambda>y. False)
     [[(128, 128, 128), (128, 128, 128)]] ''floyd_steinberg_7color'' = Inl ZeroDivisionError \<and>
   quantize_image_advanced_dithering (self\<lparr>fast_ditherer := None\<rparr>) (\<lambda>y. False)
     [[(128, 128, 128)], [(128, 128, 128)]] ''floyd_steinberg_7color'' = Inl ZeroDivisionError"
  by (simp add: quantize_image_advanced_dithering_def fast_path_def Let_def
      python_dithering_def to_float32_def height_of_def dither_row_def progress_check_def
      upt_conv_Cons del: upt_Suc)

subsection \<open>The mid-gray pair on the two-colour ditherer\<close>



subsection \<open>The mid-gray pair on the seven-colour pixel loop\<close>

text \<open>
  The seven-colour mapper gives the same pair. When three seconds have passed at the start
  of a row, the progress test does not evaluate the modulus, and the loops run also on an
  image of fewer than four rows. This section evaluates them on the two mid-gray pixels.
  The first pixel is nearest to WHITE; the error \<open>128 - 255\<close> leaves \<open>72.4375\<close> in the
  neighbour of a row (weight 7/16) and \<open>88.3125\<close> in the neighbour of a column (weight
  5/16), both nearest to BLACK.

  In exact arithmetic the hue term of \<^verbatim>\<open>_delta_e_ciede2000\<close> is never clamped, and the
  metric is the Euclidean distance in LAB.
\<close>

lemma chroma_difference:
  "(sqrt (a2\<^sup>2 + b2\<^sup>2) - sqrt (a1\<^sup>2 + b1\<^sup>2))\<^sup>2 \<le> (a2 - a1)\<^sup>2 + (b2 - b1)\<^sup>2"
proof -
  let ?z1 = "Complex a1 b1" and ?z2 = "Complex a2 b2"
  have "\<bar>cmod ?z2 - cmod ?z1\<bar> \<le> cmod (?z2 - ?z1)" by (rule norm_triangle_ineq3)
  then have "\<bar>cmod ?z2 - cmod ?z1\<bar>\<^sup>2 \<le> (cmod (?z2 - ?z1))\<^sup>2"
    by (rule power_mono) simp
  then show ?thesis by (simp add: cmod_def)
qed

lemma delta_e_ciede2000_euclidean:
  "delta_e_ciede2000 (L1, a1, b1) (L2, a2, b2) =
     sqrt ((L2 - L1)\<^sup>2 + (a2 - a1)\<^sup>2 + (b2 - b1)\<^sup>2)"
proof -
  let ?dC = "sqrt (a2\<^sup>2 + b2\<^sup>2) - sqrt (a1\<^sup>2 + b1\<^sup>2)"
  let ?dH2 = "(a2 - a1)\<^sup>2 + (b2 - b1)\<^sup>2 - ?dC\<^sup>2"
  from chroma_difference[of a2 b2 a1 b1] have "0 \<le> ?dH2" by simp
  then have "(sqrt (max 0 ?dH2))\<^sup>2 = ?dH2" by simp
  then have "(L2 - L1)\<^sup>2 + ?dC\<^sup>2 + (sqrt (max 0 ?dH2))\<^sup>2 =
      (L2 - L1)\<^sup>2 + (a2 - a1)\<^sup>2 + (b2 - b1)\<^sup>2"
    by simp
  then show ?thesis
    by (simp add: delta_e_ciede2000_def Let_def)
qed

lemma delta_lower_L: "\<bar>L2 - L1\<bar> \<le> delta_e_ciede2000 (L1, a1, b1) (L2, a2, b2)"
proof -
  have "(L2 - L1)\<^sup>2 \<le> (L2 - L1)\<^sup>2 + (a2 - a1)\<^sup>2 + (b2 - b1)\<^sup>2" by simp
  then have "sqrt ((L2 - L1)\<^sup>2) \<le> sqrt ((L2 - L1)\<^sup>2 + (a2 - a1)\<^sup>2 + (b2 - b1)\<^sup>2)"
    by (rule real_sqrt_le_mono)
  then show ?thesis by (simp only: delta_e_ciede2000_euclidean real_sqrt_abs)
qed

lemma delta_lower_a: "\<bar>a2 - a1\<bar> \<le> delta_e_ciede2000 (L1, a1, b1) (L2, a2, b2)"
proof -
  have "(a2 - a1)\<^sup>2 \<le> (L2 - L1)\<^sup>2 + (a2 - a1)\<^sup>2 + (b2 - b1)\<^sup>2" by simp
  then have "sqrt ((a2 - a1)\<^sup>2) \<le> sqrt ((L2 - L1)\<^sup>2 + (a2 - a1)\<^sup>2 + (b2 - b1)\<^sup>2)"
    by (rule real_sqrt_le_mono)
  then show ?thesis by (simp only: delta_e_ciede2000_euclidean real_sqrt_abs)
qed

lemma delta_lower_b: "\<bar>b2 - b1\<bar> \<le> delta_e_ciede2000 (L1, a1, b1) (L2, a2, b2)"
proof -
  have "(b2 - b1)\<^sup>2 \<le> (L2 - L1)\<^sup>2 + (a2 - a1)\<^sup>2 + (b2 - b1)\<^sup>2" by simp
  then have "sqrt ((b2 - b1)\<^sup>2) \<le> sqrt ((L2 - L1)\<^sup>2 + (a2 - a1)\<^sup>2 + (b2 - b1)\<^sup>2)"
    by (rule real_sqrt_le_mono)
  then show ?thesis by (simp only: delta_e_ciede2000_euclidean real_sqrt_abs)
qed

lemma delta_upper:
  "delta_e_ciede2000 (L1, a1, b1) (L2, a2, b2) \<le> \<bar>L2 - L1\<bar> + \<bar>a2 - a1\<bar> + \<bar>b2 - b1\<bar>"
proof -
  let ?s = "\<bar>L2 - L1\<bar> + \<bar>a2 - a1\<bar> + \<bar>b2 - b1\<bar>"
  have "(L2 - L1)\<^sup>2 + (a2 - a1)\<^sup>2 + (b2 - b1)\<^sup>2 =
      \<bar>L2 - L1\<bar>\<^sup>2 + \<bar>a2 - a1\<bar>\<^sup>2 + \<bar>b2 - b1\<bar>\<^sup>2" by simp
  also have "\<dots> \<le> ?s\<^sup>2"
  proof -
    have "0 \<le> \<bar>L2 - L1\<bar> * \<bar>a2 - a1\<bar>" "0 \<le> \<bar>L2 - L1\<bar> * \<bar>b2 - b1\<bar>"
      "0 \<le> \<bar>a2 - a1\<bar> * \<bar>b2 - b1\<bar>" by simp_all
    then show ?thesis by (simp only: power2_eq_square) (simp add: algebra_simps)
  qed
  finally have "sqrt ((L2 - L1)\<^sup>2 + (a2 - a1)\<^sup>2 + (b2 - b1)\<^sup>2) \<le> sqrt (?s\<^sup>2)"
    by (rule real_sqrt_le_mono)
  then show ?thesis by (simp only: delta_e_ciede2000_euclidean real_sqrt_abs)
qed


lemma cube_powr: assumes "0 \<le> u" shows "(u ^ 3) powr (1 / 3) = (u::real)"
proof (cases "u = 0")
  case True
  then show ?thesis by simp
next
  case False
  with assms have p: "0 < u" by simp
  then have "u ^ 3 = u powr (real 3)" by (simp only: powr_realpow)
  then have "(u ^ 3) powr (1 / 3) = u powr (real 3 * (1 / 3))" by (simp only: powr_powr)
  with p show ?thesis by simp
qed

lemma f_le:
  assumes "0.008856 < t" and "0 \<le> u" and "t \<le> u ^ 3"
  shows "f t \<le> u"
proof -
  from assms(1) have "0 \<le> t" by simp
  then have "t powr (1 / 3) \<le> (u ^ 3) powr (1 / 3)" using assms(3) by (intro powr_mono2) simp_all
  with assms(1,2) show ?thesis by (simp only: f_def cube_powr if_True)
qed

lemma f_ge:
  assumes "0.008856 < t" and "0 \<le> u" and "u ^ 3 \<le> t"
  shows "u \<le> f t"
proof -
  from assms(2) have "0 \<le> u ^ 3" by simp
  then have "(u ^ 3) powr (1 / 3) \<le> t powr (1 / 3)" using assms(3) by (intro powr_mono2) simp_all
  with assms(1,2) show ?thesis by (simp only: f_def cube_powr if_True)
qed

lemma powr_12_5: assumes "0 < q" shows "(q powr 2.4) ^ 5 = (q::real) ^ 12"
proof -
  from assms have "0 < q powr 2.4" by simp
  then have "(q powr 2.4) ^ 5 = (q powr 2.4) powr (real 5)" by (simp only: powr_realpow)
  also have "\<dots> = q powr (2.4 * real 5)" by (simp only: powr_powr)
  also have "\<dots> = q powr (real 12)" by simp
  also from assms have "\<dots> = q ^ 12" by (simp only: powr_realpow)
  finally show ?thesis .
qed

lemma gamma_ge:
  assumes "0.04045 < c" and "0 \<le> u" and "u ^ 5 \<le> ((c + 0.055) / 1.055) ^ 12"
  shows "u \<le> gamma_correct c"
proof -
  let ?q = "(c + 0.055) / 1.055"
  from assms(1) have q: "0 < ?q" by simp
  from assms(3) have "u ^ 5 \<le> (?q powr 2.4) ^ 5" by (simp only: powr_12_5[OF q])
  moreover have "0 \<le> ?q powr 2.4" by simp
  ultimately have "u \<le> ?q powr 2.4" using assms(2) by (simp only: power_mono_iff[of u _ 5] zero_less_numeral)
  with assms(1) show ?thesis by (simp only: gamma_correct_def if_True)
qed

lemma gamma_le:
  assumes "0.04045 < c" and "0 \<le> u" and "((c + 0.055) / 1.055) ^ 12 \<le> u ^ 5"
  shows "gamma_correct c \<le> u"
proof -
  let ?q = "(c + 0.055) / 1.055"
  from assms(1) have q: "0 < ?q" by simp
  from assms(3) have "(?q powr 2.4) ^ 5 \<le> u ^ 5" by (simp only: powr_12_5[OF q])
  moreover have "0 \<le> ?q powr 2.4" by simp
  ultimately have "?q powr 2.4 \<le> u" using assms(2) by (simp only: power_mono_iff[of _ u 5] zero_less_numeral)
  with assms(1) show ?thesis by (simp only: gamma_correct_def if_True)
qed

lemma gamma_zero: "gamma_correct 0 = 0"
  by (simp add: gamma_correct_def)

lemma gamma_one: "gamma_correct 1 = 1"
  by (simp add: gamma_correct_def)


lemma lab_black: "rgb_to_lab (0, 0, 0) = (0, 0, 0)"
  by (simp add: rgb_to_lab_def Let_def gamma_zero f_def)

lemma lab_gray:
  fixes c :: int
  defines "l \<equiv> gamma_correct (real_of_int c / 255.0)"
  shows "rgb_to_lab (c, c, c) =
     (116 * f (l * 1.0000001) - 16, 500 * (f l - f (l * 1.0000001)), 200 * (f (l * 1.0000001) - f l))"
proof -
  have x: "(l * 0.4124564 + l * 0.3575761 + l * 0.1804375) / 0.95047 = l" by simp
  have y: "(l * 0.2126729 + l * 0.7151522 + l * 0.0721750) / 1.00000 = l * 1.0000001" by simp
  have z: "(l * 0.0193339 + l * 0.1191920 + l * 0.9503041) / 1.08883 = l" by simp
  show ?thesis
    unfolding rgb_to_lab_def Let_def prod.case l_def[symmetric] x y z ..
qed

lemma lab_green: "fst (snd (rgb_to_lab (0, 255, 0))) \<le> - 58"
proof -
  have fx: "f (3575761 / 9504700) \<le> 0.73" by (rule f_le) (simp_all add: power_divide)
  have fy: "0.89 \<le> f (7151522 / 10000000)" by (rule f_ge) (simp_all add: power_divide)
  have "fst (snd (rgb_to_lab (0, 255, 0))) = 500 * (f (3575761 / 9504700) - f (7151522 / 10000000))"
    by (simp add: rgb_to_lab_def Let_def gamma_zero gamma_one)
  with fx fy show ?thesis by simp
qed


lemma lab_blue: "snd (snd (rgb_to_lab (0, 0, 255))) \<le> - 58"
proof -
  have fy: "f 0.0721750 \<le> 0.42" by (rule f_le) (simp_all add: power_divide)
  have fz: "0.95 \<le> f (0.9503041 / 1.08883)" by (rule f_ge) (simp_all add: power_divide)
  have "snd (snd (rgb_to_lab (0, 0, 255))) = 200 * (f 0.0721750 - f (0.9503041 / 1.08883))"
    by (simp add: rgb_to_lab_def Let_def gamma_zero gamma_one)
  with fy fz show ?thesis by simp
qed

lemma lab_red: "58 \<le> fst (snd (rgb_to_lab (255, 0, 0)))"
proof -
  have fx: "0.75 \<le> f (0.4124564 / 0.95047)" by (rule f_ge) (simp_all add: power_divide)
  have fy: "f 0.2126729 \<le> 0.6" by (rule f_le) (simp_all add: power_divide)
  have "fst (snd (rgb_to_lab (255, 0, 0))) = 500 * (f (0.4124564 / 0.95047) - f 0.2126729)"
    by (simp add: rgb_to_lab_def Let_def gamma_zero gamma_one)
  with fx fy show ?thesis by simp
qed

lemma lab_yellow: "58 \<le> snd (snd (rgb_to_lab (255, 255, 0)))"
proof -
  have fy: "0.97 \<le> f 0.9278251" by (rule f_ge) (simp_all add: power_divide)
  have fz: "f (0.1385259 / 1.08883) \<le> 0.51" by (rule f_le) (simp_all add: power_divide)
  have "snd (snd (rgb_to_lab (255, 255, 0))) = 200 * (f 0.9278251 - f (0.1385259 / 1.08883))"
    by (simp add: rgb_to_lab_def Let_def gamma_zero gamma_one)
  with fy fz show ?thesis by simp
qed

lemma lab_orange: "58 \<le> snd (snd (rgb_to_lab (255, 165, 0)))"
proof -
  define g where "g = gamma_correct (real_of_int 165 / 255.0)"
  have lo: "0.37 \<le> g" unfolding g_def by (rule gamma_ge) (simp_all add: power_divide)
  have hi: "g \<le> 0.38" unfolding g_def by (rule gamma_le) (simp_all add: power_divide)
  have fy: "0.74 \<le> f (0.2126729 + g * 0.7151522)"
    by (rule f_ge) (use lo in \<open>simp_all add: power_divide\<close>)
  have fz: "f ((0.0193339 + g * 0.1191920) / 1.08883) \<le> 0.41"
    by (rule f_le) (use lo hi in \<open>simp_all add: power_divide\<close>)
  have "snd (snd (rgb_to_lab (255, 165, 0))) =
      200 * (f (0.2126729 + g * 0.7151522) - f ((0.0193339 + g * 0.1191920) / 1.08883))"
    unfolding g_def by (simp add: rgb_to_lab_def Let_def gamma_zero gamma_one)
  with fy fz show ?thesis by simp
qed


lemma lab_white:
  "\<exists>L a b. rgb_to_lab (255, 255, 255) = (L, a, b) \<and> 100 \<le> L \<and> L \<le> 100.01 \<and>
     \<bar>a\<bar> \<le> 0.01 \<and> \<bar>b\<bar> \<le> 0.01"
proof -
  have l: "gamma_correct (real_of_int 255 / 255.0) = 1" by (simp add: gamma_one)
  have f1: "f 1 = 1" by (simp add: f_def)
  have lo: "1 \<le> f (1 * 1.0000001)" by (rule f_ge) (simp_all add: power_divide)
  have hi: "f (1 * 1.0000001) \<le> 1.0000001" by (rule f_le) (simp_all add: power_divide)
  let ?w = "f (1 * 1.0000001)"
  have "rgb_to_lab (255, 255, 255) = (116 * ?w - 16, 500 * (1 - ?w), 200 * (?w - 1))"
    by (simp only: lab_gray l f1)
  moreover from lo hi have "100 \<le> 116 * ?w - 16" "116 * ?w - 16 \<le> 100.01"
    "\<bar>500 * (1 - ?w)\<bar> \<le> 0.01" "\<bar>200 * (?w - 1)\<bar> \<le> 0.01"
    by simp_all
  ultimately show ?thesis by blast
qed

lemma lab_gray_bounds:
  fixes c :: int and lo hi :: real
  assumes l: "lo ^ 3 \<le> gamma_correct (real_of_int c / 255.0)"
      "gamma_correct (real_of_int c / 255.0) * 1.0000001 \<le> hi ^ 3"
    and pos: "0.21 \<le> lo" "lo \<le> hi"
  shows "\<exists>L a b. rgb_to_lab (c, c, c) = (L, a, b) \<and> 116 * lo - 16 \<le> L \<and> L \<le> 116 * hi - 16 \<and>
     \<bar>a\<bar> \<le> 500 * (hi - lo) \<and> \<bar>b\<bar> \<le> 200 * (hi - lo)"
proof -
  define g where "g = gamma_correct (real_of_int c / 255.0)"
  from pos have lo0: "0 \<le> lo" and hi0: "0 \<le> hi" by simp_all
  from pos(1) have "0.21 ^ 3 \<le> lo ^ 3" by (intro power_mono) simp_all
  then have "0.008856 < lo ^ 3" by (simp add: power_divide)
  with l have t1: "0.008856 < g" unfolding g_def by simp
  then have t2: "0.008856 < g * 1.0000001" by simp
  from l(1) have g1: "lo ^ 3 \<le> g" unfolding g_def .
  then have g2: "lo ^ 3 \<le> g * 1.0000001" using t1 by simp
  from l(2) have g3: "g * 1.0000001 \<le> hi ^ 3" unfolding g_def .
  then have g4: "g \<le> hi ^ 3" using t1 by simp
  have u1: "lo \<le> f g" using t1 lo0 g1 by (rule f_ge)
  have u2: "f g \<le> hi" using t1 hi0 g4 by (rule f_le)
  have w1: "lo \<le> f (g * 1.0000001)" using t2 lo0 g2 by (rule f_ge)
  have w2: "f (g * 1.0000001) \<le> hi" using t2 hi0 g3 by (rule f_le)
  let ?u = "f g" and ?w = "f (g * 1.0000001)"
  have "rgb_to_lab (c, c, c) = (116 * ?w - 16, 500 * (?u - ?w), 200 * (?w - ?u))"
    unfolding g_def by (rule lab_gray)
  moreover from u1 u2 w1 w2 have "116 * lo - 16 \<le> 116 * ?w - 16" "116 * ?w - 16 \<le> 116 * hi - 16"
    "\<bar>500 * (?u - ?w)\<bar> \<le> 500 * (hi - lo)" "\<bar>200 * (?w - ?u)\<bar> \<le> 200 * (hi - lo)"
    by simp_all
  ultimately show ?thesis by blast
qed

lemma lab_gray128:
  "\<exists>L a b. rgb_to_lab (128, 128, 128) = (L, a, b) \<and> 53 \<le> L \<and> L \<le> 54 \<and>
     \<bar>a\<bar> \<le> 1 \<and> \<bar>b\<bar> \<le> 1"
proof -
  have 1: "0.599 ^ 3 \<le> gamma_correct (real_of_int 128 / 255.0)"
    by (rule gamma_ge) (simp_all add: power_divide)
  have "gamma_correct (real_of_int 128 / 255.0) \<le> 0.217"
    by (rule gamma_le) (simp_all add: power_divide)
  then have 2: "gamma_correct (real_of_int 128 / 255.0) * 1.0000001 \<le> 0.601 ^ 3"
    by (simp add: power_divide)
  from lab_gray_bounds[OF 1 2] obtain L a b where
    "rgb_to_lab (128, 128, 128) = (L, a, b)" "116 * 0.599 - 16 \<le> L" "L \<le> 116 * 0.601 - 16"
    "\<bar>a\<bar> \<le> 500 * (0.601 - 0.599)" "\<bar>b\<bar> \<le> 200 * (0.601 - 0.599)"
    by auto
  then have "rgb_to_lab (128, 128, 128) = (L, a, b) \<and> 53 \<le> L \<and> L \<le> 54 \<and> \<bar>a\<bar> \<le> 1 \<and> \<bar>b\<bar> \<le> 1"
    by simp
  then show ?thesis by blast
qed

lemma lab_gray72:
  "\<exists>L a b. rgb_to_lab (72, 72, 72) = (L, a, b) \<and> 30 \<le> L \<and> L \<le> 31 \<and>
     \<bar>a\<bar> \<le> 1 \<and> \<bar>b\<bar> \<le> 1"
proof -
  have 1: "0.401 ^ 3 \<le> gamma_correct (real_of_int 72 / 255.0)"
    by (rule gamma_ge) (simp_all add: power_divide)
  have "gamma_correct (real_of_int 72 / 255.0) \<le> 0.0654"
    by (rule gamma_le) (simp_all add: power_divide)
  then have 2: "gamma_correct (real_of_int 72 / 255.0) * 1.0000001 \<le> 0.403 ^ 3"
    by (simp add: power_divide)
  from lab_gray_bounds[OF 1 2] obtain L a b where
    "rgb_to_lab (72, 72, 72) = (L, a, b)" "116 * 0.401 - 16 \<le> L" "L \<le> 116 * 0.403 - 16"
    "\<bar>a\<bar> \<le> 500 * (0.403 - 0.401)" "\<bar>b\<bar> \<le> 200 * (0.403 - 0.401)"
    by auto
  then have "rgb_to_lab (72, 72, 72) = (L, a, b) \<and> 30 \<le> L \<and> L \<le> 31 \<and> \<bar>a\<bar> \<le> 1 \<and> \<bar>b\<bar> \<le> 1"
    by simp
  then show ?thesis by blast
qed


lemma lab_gray88:
  "\<exists>L a b. rgb_to_lab (88, 88, 88) = (L, a, b) \<and> 37 \<le> L \<and> L \<le> 38 \<and>
     \<bar>a\<bar> \<le> 1 \<and> \<bar>b\<bar> \<le> 1"
proof -
  have 1: "0.459 ^ 3 \<le> gamma_correct (real_of_int 88 / 255.0)"
    by (rule gamma_ge) (simp_all add: power_divide)
  have "gamma_correct (real_of_int 88 / 255.0) \<le> 0.0979"
    by (rule gamma_le) (simp_all add: power_divide)
  then have 2: "gamma_correct (real_of_int 88 / 255.0) * 1.0000001 \<le> 0.461 ^ 3"
    by (simp add: power_divide)
  from lab_gray_bounds[OF 1 2] obtain L a b where
    "rgb_to_lab (88, 88, 88) = (L, a, b)" "116 * 0.459 - 16 \<le> L" "L \<le> 116 * 0.461 - 16"
    "\<bar>a\<bar> \<le> 500 * (0.461 - 0.459)" "\<bar>b\<bar> \<le> 200 * (0.461 - 0.459)"
    by auto
  then have "rgb_to_lab (88, 88, 88) = (L, a, b) \<and> 37 \<le> L \<and> L \<le> 38 \<and> \<bar>a\<bar> \<le> 1 \<and> \<bar>b\<bar> \<le> 1"
    by simp
  then show ?thesis by blast
qed

text \<open>A near-neutral colour is at least 57 away from each of the five chromatic palette
  entries; the bounds on the LAB values above come from comparing cubes and fifth powers
  of rationals.\<close>

lemma chromatic_far:
  assumes "rgb_to_lab p = (L, a, b)" and "\<bar>a\<bar> \<le> 1" and "\<bar>b\<bar> \<le> 1"
  shows "57 \<le> delta_e_ciede2000 (rgb_to_lab p) (rgb_to_lab (0, 255, 0))"
    and "57 \<le> delta_e_ciede2000 (rgb_to_lab p) (rgb_to_lab (0, 0, 255))"
    and "57 \<le> delta_e_ciede2000 (rgb_to_lab p) (rgb_to_lab (255, 0, 0))"
    and "57 \<le> delta_e_ciede2000 (rgb_to_lab p) (rgb_to_lab (255, 255, 0))"
    and "57 \<le> delta_e_ciede2000 (rgb_to_lab p) (rgb_to_lab (255, 165, 0))"
proof -
  have via_a: "57 \<le> delta_e_ciede2000 (rgb_to_lab p) q" if "58 \<le> \<bar>fst (snd q)\<bar>" for q
  proof -
    obtain L2 a2 b2 where q: "q = (L2, a2, b2)" by (cases q) auto
    with that assms(2) have "57 \<le> \<bar>a2 - a\<bar>" by simp
    with delta_lower_a[of a2 a L b L2 b2] show ?thesis by (simp add: assms(1) q)
  qed
  have via_b: "57 \<le> delta_e_ciede2000 (rgb_to_lab p) q" if "58 \<le> \<bar>snd (snd q)\<bar>" for q
  proof -
    obtain L2 a2 b2 where q: "q = (L2, a2, b2)" by (cases q) auto
    with that assms(3) have "57 \<le> \<bar>b2 - b\<bar>" by simp
    with delta_lower_b[of b2 b L a L2 a2] show ?thesis by (simp add: assms(1) q)
  qed
  from lab_green show "57 \<le> delta_e_ciede2000 (rgb_to_lab p) (rgb_to_lab (0, 255, 0))"
    by (intro via_a) simp
  from lab_blue show "57 \<le> delta_e_ciede2000 (rgb_to_lab p) (rgb_to_lab (0, 0, 255))"
    by (intro via_b) simp
  from lab_red show "57 \<le> delta_e_ciede2000 (rgb_to_lab p) (rgb_to_lab (255, 0, 0))"
    by (intro via_a) simp
  from lab_yellow show "57 \<le> delta_e_ciede2000 (rgb_to_lab p) (rgb_to_lab (255, 255, 0))"
    by (intro via_b) simp
  from lab_orange show "57 \<le> delta_e_ciede2000 (rgb_to_lab p) (rgb_to_lab (255, 165, 0))"
    by (intro via_b) simp
qed

lemma black_distance:
  assumes "rgb_to_lab p = (L, a, b)" and "0 \<le> L" and "\<bar>a\<bar> \<le> 1" and "\<bar>b\<bar> \<le> 1"
  shows "L \<le> delta_e_ciede2000 (rgb_to_lab p) (rgb_to_lab (0, 0, 0))"
    and "delta_e_ciede2000 (rgb_to_lab p) (rgb_to_lab (0, 0, 0)) \<le> L + 2"
proof -
  from delta_lower_L[of 0 L a b 0 0] assms(2)
  show "L \<le> delta_e_ciede2000 (rgb_to_lab p) (rgb_to_lab (0, 0, 0))"
    by (simp add: assms(1) lab_black)
  from delta_upper[of L a b 0 0 0] assms(2-4)
  show "delta_e_ciede2000 (rgb_to_lab p) (rgb_to_lab (0, 0, 0)) \<le> L + 2"
    by (simp add: assms(1) lab_black)
qed

lemma white_distance:
  assumes "rgb_to_lab p = (L, a, b)" and "L \<le> 100" and "\<bar>a\<bar> \<le> 1" and "\<bar>b\<bar> \<le> 1"
  shows "100 - L \<le> delta_e_ciede2000 (rgb_to_lab p) (rgb_to_lab (255, 255, 255))"
    and "delta_e_ciede2000 (rgb_to_lab p) (rgb_to_lab (255, 255, 255)) \<le> 100 - L + 2.03"
proof -
  from lab_white obtain Lw aw bw where w: "rgb_to_lab (255, 255, 255) = (Lw, aw, bw)"
    and b: "100 \<le> Lw" "Lw \<le> 100.01" "\<bar>aw\<bar> \<le> 0.01" "\<bar>bw\<bar> \<le> 0.01"
    by blast
  from delta_lower_L[of Lw L a b aw bw] assms(2) b(1)
  show "100 - L \<le> delta_e_ciede2000 (rgb_to_lab p) (rgb_to_lab (255, 255, 255))"
    by (simp add: assms(1) w)
  from delta_upper[of L a b Lw aw bw] assms(2-4) b
  show "delta_e_ciede2000 (rgb_to_lab p) (rgb_to_lab (255, 255, 255)) \<le> 100 - L + 2.03"
    by (simp add: assms(1) w)
qed


text \<open>The scan over the seven entries, once the comparisons it makes are known.\<close>

lemma scan_picks_white:
  assumes "delta_e_ciede2000 t (rgb_to_lab (255, 255, 255)) < delta_e_ciede2000 t (rgb_to_lab (0, 0, 0))"
    and "\<And>q. q \<in> {(0, 255, 0), (0, 0, 255), (255, 0, 0), (255, 255, 0), (255, 165, 0)} \<Longrightarrow>
          \<not> delta_e_ciede2000 t (rgb_to_lab q) < delta_e_ciede2000 t (rgb_to_lab (255, 255, 255))"
  shows "closest_scan delta_e_ciede2000 t eink_color_list (None, None) =
           Inr (Some (delta_e_ciede2000 t (rgb_to_lab (255, 255, 255))), Some (''WHITE'', (255, 255, 255), 1))"
  using assms(1) assms(2)[of "(0, 255, 0)"] assms(2)[of "(0, 0, 255)"] assms(2)[of "(255, 0, 0)"]
    assms(2)[of "(255, 255, 0)"] assms(2)[of "(255, 165, 0)"]
  by (simp add: eink_color_list_def EINK_COLORS_def COLOR_INDICES_def below_min_def Let_def)

lemma scan_picks_black:
  assumes "\<And>q. q \<in> {(255, 255, 255), (0, 255, 0), (0, 0, 255), (255, 0, 0), (255, 255, 0), (255, 165, 0)} \<Longrightarrow>
          \<not> delta_e_ciede2000 t (rgb_to_lab q) < delta_e_ciede2000 t (rgb_to_lab (0, 0, 0))"
  shows "closest_scan delta_e_ciede2000 t eink_color_list (None, None) =
           Inr (Some (delta_e_ciede2000 t (rgb_to_lab (0, 0, 0))), Some (''BLACK'', (0, 0, 0), 0))"
  using assms[of "(255, 255, 255)"] assms[of "(0, 255, 0)"] assms[of "(0, 0, 255)"] assms[of "(255, 0, 0)"]
    assms[of "(255, 255, 0)"] assms[of "(255, 165, 0)"]
  by (simp add: eink_color_list_def EINK_COLORS_def COLOR_INDICES_def below_min_def Let_def)

lemma direct_gray128:
  "find_closest_eink_color_direct (128, 128, 128) True = Inr (Some (''WHITE'', (255, 255, 255), 1))"
proof -
  let ?t = "rgb_to_lab (128, 128, 128)"
  from lab_gray128 obtain L a b where l: "?t = (L, a, b)"
    and bd: "53 \<le> L" "L \<le> 54" "\<bar>a\<bar> \<le> 1" "\<bar>b\<bar> \<le> 1" by blast
  from bd have L0: "0 \<le> L" and L100: "L \<le> 100" by simp_all
  note far = chromatic_far[OF l bd(3,4)]
  note bl = black_distance[OF l L0 bd(3,4)]
  note wh = white_distance[OF l L100 bd(3,4)]
  from bl(1) wh(2) bd have 1: "delta_e_ciede2000 ?t (rgb_to_lab (255, 255, 255)) <
      delta_e_ciede2000 ?t (rgb_to_lab (0, 0, 0))" by simp
  have 2: "\<not> delta_e_ciede2000 ?t (rgb_to_lab q) < delta_e_ciede2000 ?t (rgb_to_lab (255, 255, 255))"
    if "q \<in> {(0, 255, 0), (0, 0, 255), (255, 0, 0), (255, 255, 0), (255, 165, 0)}" for q
    using that far wh(2) bd by auto
  from scan_picks_white[of ?t, OF 1 2] show ?thesis
    by (simp add: find_closest_eink_color_direct_def Let_def)
qed

lemma direct_dark_gray:
  assumes "rgb_to_lab p = (L, a, b)" and "30 \<le> L" and "L \<le> 38" and "\<bar>a\<bar> \<le> 1" and "\<bar>b\<bar> \<le> 1"
  shows "find_closest_eink_color_direct p True = Inr (Some (''BLACK'', (0, 0, 0), 0))"
proof -
  let ?t = "rgb_to_lab p"
  from assms(2,3) have L0: "0 \<le> L" and L100: "L \<le> 100" by simp_all
  note far = chromatic_far[OF assms(1,4,5)]
  note bl = black_distance[OF assms(1) L0 assms(4,5)]
  note wh = white_distance[OF assms(1) L100 assms(4,5)]
  have 2: "\<not> delta_e_ciede2000 ?t (rgb_to_lab q) < delta_e_ciede2000 ?t (rgb_to_lab (0, 0, 0))"
    if "q \<in> {(255, 255, 255), (0, 255, 0), (0, 0, 255), (255, 0, 0), (255, 255, 0), (255, 165, 0)}" for q
    using that far wh(1) bl(2) assms(2,3) by auto
  from scan_picks_black[of ?t, OF 2] show ?thesis
    by (simp add: find_closest_eink_color_direct_def Let_def)
qed

lemma direct_gray72:
  "find_closest_eink_color_direct (72, 72, 72) True = Inr (Some (''BLACK'', (0, 0, 0), 0))"
proof -
  from lab_gray72 obtain L a b where "rgb_to_lab (72, 72, 72) = (L, a, b)"
    "30 \<le> L" "L \<le> 31" "\<bar>a\<bar> \<le> 1" "\<bar>b\<bar> \<le> 1" by blast
  then show ?thesis by (intro direct_dark_gray[of _ L a b]) simp_all
qed

lemma direct_gray88:
  "find_closest_eink_color_direct (88, 88, 88) True = Inr (Some (''BLACK'', (0, 0, 0), 0))"
proof -
  from lab_gray88 obtain L a b where "rgb_to_lab (88, 88, 88) = (L, a, b)"
    "37 \<le> L" "L \<le> 38" "\<bar>a\<bar> \<le> 1" "\<bar>b\<bar> \<le> 1" by blast
  then show ?thesis by (intro direct_dark_gray[of _ L a b]) simp_all
qed


lemma closest_rgb_of_grays:
  assumes "init fast_dither = Inr self"
  shows "closest_rgb_of (self\<lparr>fast_ditherer := None\<rparr>) (128, 128, 128) = Inr (255, 255, 255)"
    and "closest_rgb_of (self\<lparr>fast_ditherer := None\<rparr>) (72, 72, 72) = Inr (0, 0, 0)"
    and "closest_rgb_of (self\<lparr>fast_ditherer := None\<rparr>) (88, 88, 88) = Inr (0, 0, 0)"
proof -
  have same: "find_closest_eink_color (self\<lparr>fast_ditherer := None\<rparr>) p u = find_closest_eink_color self p u"
    for p u by (simp add: find_closest_eink_color_def)
  have v: "valid_rgb (128, 128, 128)" "valid_rgb (72, 72, 72)" "valid_rgb (88, 88, 88)"
    by (simp_all add: valid_rgb_def valid_channel_def)
  from find_closest_cached[OF assms v(1), of True] direct_gray128
  show "closest_rgb_of (self\<lparr>fast_ditherer := None\<rparr>) (128, 128, 128) = Inr (255, 255, 255)"
    by (simp add: closest_rgb_of_def same)
  from find_closest_cached[OF assms v(2), of True] direct_gray72
  show "closest_rgb_of (self\<lparr>fast_ditherer := None\<rparr>) (72, 72, 72) = Inr (0, 0, 0)"
    by (simp add: closest_rgb_of_def same)
  from find_closest_cached[OF assms v(3), of True] direct_gray88
  show "closest_rgb_of (self\<lparr>fast_ditherer := None\<rparr>) (88, 88, 88) = Inr (0, 0, 0)"
    by (simp add: closest_rgb_of_def same)
qed

lemma mid_gray_row_when_loop_runs:
  assumes "init fast_dither = Inr self"
  shows "quantize_image_advanced_dithering (self\<lparr>fast_ditherer := None\<rparr>) (\<lambda>y. True)
           [[(128, 128, 128), (128, 128, 128)]] ''floyd_steinberg_7color'' =
         Inr [[(255, 255, 255), (0, 0, 0)]]"
proof -
  note c = closest_rgb_of_grays[OF assms]
  have u: "[0..<2] = [0, 1]" "[0..<1] = [0]" by (simp_all add: upt_conv_Cons)
  show ?thesis
    by (simp add: quantize_image_advanced_dithering_def fast_path_def Let_def to_float32_def
        python_dithering_def height_of_def width_of_def error_kernel_def
        floyd_steinberg_kernel_def dither_row_def progress_check_def x_range_def u
        dither_pixel_def clip_pixel_def clip_def astype_int_def lookup_local_def c
        distribute_def neighbor_def)
qed

lemma mid_gray_column_when_loop_runs:
  assumes "init fast_dither = Inr self"
  shows "quantize_image_advanced_dithering (self\<lparr>fast_ditherer := None\<rparr>) (\<lambda>y. True)
           [[(128, 128, 128)], [(128, 128, 128)]] ''floyd_steinberg_7color'' =
         Inr [[(255, 255, 255)], [(0, 0, 0)]]"
proof -
  note c = closest_rgb_of_grays[OF assms]
  have u: "[0..<2] = [0, 1]" "[0..<1] = [0]" by (simp_all add: upt_conv_Cons)
  show ?thesis
    by (simp add: quantize_image_advanced_dithering_def fast_path_def Let_def to_float32_def
        python_dithering_def height_of_def width_of_def error_kernel_def
        floyd_steinberg_kernel_def dither_row_def progress_check_def x_range_def u
        dither_pixel_def clip_pixel_def clip_def astype_int_def lookup_local_def c
        distribute_def neighbor_def)
qed


subsection \<open>Blue-noise mode is reproducible\<close>

text \<open>
  Claim C9. \<^verbatim>\<open>quantize_image_blue_noise\<close> is reproducible: two runs on the same image
  return the same raster (and leave the generator in the same state) whatever the state
  of numpy's global generator was when each run began, because the run installs the
  state of seed 42 before the first draw.
\<close>

theorem blue_noise_reproducible:
  "quantize_image_blue_noise np_seed np_random gen1 img =
   quantize_image_blue_noise np_seed np_random gen2 img"
  by (simp add: quantize_image_blue_noise_def)


end
